theory Spec2Isabelle
  imports Complex_Main "HOL-Library.AList"
begin

section \<open>Speech analysis of YouSound: the analyzer, the feedback rules, the polling job\<close>

text \<open>
  A shallow embedding of \<^verbatim>\<open>utils/analyzeAudio.ts\<close>: \<^verbatim>\<open>analyzeAudio\<close>,
  \<^verbatim>\<open>analyzeTranscript\<close>, \<^verbatim>\<open>getRepeatedWords\<close> and \<^verbatim>\<open>generateFeedback\<close>.

  Conventions of the model.
  \<^item> A number of the input is an exact real number: the inputs are finite JSON numbers.
    The rounding error of IEEE doubles is not modelled, their range is: a value computed
    from the duration, which may underflow to zero or overflow, is a \<open>jsnum\<close> (a finite
    value, a signed zero, an infinity or NaN).
  \<^item> A string is a list of characters; \<^verbatim>\<open>toLowerCase\<close> and \<^verbatim>\<open>trim\<close> are modelled on
    ASCII (letters A to Z, the six ASCII white-space characters).
  \<^item> A field the code reads defensively (\<^verbatim>\<open>??\<close>, \<^verbatim>\<open>||\<close>, \<^verbatim>\<open>typeof\<close>) is an
    option: \<open>None\<close> is an absent (undefined or null) field.
  \<^item> A plain object used as a counter (\<^verbatim>\<open>{}\<close>) is the list of its own properties in
    creation order, read through the prototype chain as JavaScript does.
\<close>

subsection \<open>Numbers and strings\<close>

type_synonym number = real

text \<open>\<^verbatim>\<open>Math.round\<close>: the nearest integer, a tie going up.\<close>

definition Math_round :: "number \<Rightarrow> number" where
  "Math_round x = of_int \<lfloor>x + 1 / 2\<rfloor>"

text \<open>
  A value that may leave the range of a double. \<open>Finite 0\<close> is positive zero and
  \<open>NegZero\<close> negative zero.
\<close>

datatype jsnum = Finite real | NegZero | Infinity | MinusInfinity | NaN

fun isNegative :: "jsnum \<Rightarrow> bool" where
  "isNegative (Finite x) = (x < 0)"
| "isNegative NegZero = True"
| "isNegative Infinity = False"
| "isNegative MinusInfinity = True"
| "isNegative NaN = False"

fun isZero :: "jsnum \<Rightarrow> bool" where
  "isZero (Finite x) = (x = 0)"
| "isZero NegZero = True"
| "isZero _ = False"

fun isInfinite :: "jsnum \<Rightarrow> bool" where
  "isInfinite Infinity = True"
| "isInfinite MinusInfinity = True"
| "isInfinite _ = False"

text \<open>The value of a finite number; both zeros have the value 0.\<close>

fun realValue :: "jsnum \<Rightarrow> real" where
  "realValue (Finite x) = x"
| "realValue _ = 0"

definition signedZero :: "bool \<Rightarrow> jsnum" where
  "signedZero negative = (if negative then NegZero else Finite 0)"

definition signedInfinity :: "bool \<Rightarrow> jsnum" where
  "signedInfinity negative = (if negative then MinusInfinity else Infinity)"

text \<open>
  The double for an exact nonzero result, rounding to nearest: a magnitude of at most
  \<open>2^-1075\<close>, half the least positive double, underflows to a zero of the same sign; a
  magnitude of at least \<open>2^1024 - 2^970\<close>, the greatest double plus half its last
  place, overflows to an infinity; between the two the result is kept exact.
\<close>

definition toDouble :: "real \<Rightarrow> jsnum" where
  "toDouble x =
     (if \<bar>x\<bar> \<le> 1 / 2 ^ 1075 then signedZero (x < 0)
      else if 2 ^ 1024 - 2 ^ 970 \<le> \<bar>x\<bar> then signedInfinity (x < 0)
      else Finite x)"

text \<open>
  \<^verbatim>\<open>x / y\<close>: NaN for NaN operands, for two infinities and for two zeros; the sign is
  negative when exactly one operand is negative.
\<close>

definition js_divide :: "jsnum \<Rightarrow> jsnum \<Rightarrow> jsnum" where
  "js_divide x y =
     (let negative = (isNegative x \<noteq> isNegative y)
      in if x = NaN \<or> y = NaN then NaN
         else if isInfinite x then (if isInfinite y then NaN else signedInfinity negative)
         else if isInfinite y then signedZero negative
         else if isZero y then (if isZero x then NaN else signedInfinity negative)
         else if isZero x then signedZero negative
         else toDouble (realValue x / realValue y))"

text \<open>\<^verbatim>\<open>x * y\<close>: NaN for NaN operands and for a zero times an infinity.\<close>

definition js_times :: "jsnum \<Rightarrow> jsnum \<Rightarrow> jsnum" where
  "js_times x y =
     (let negative = (isNegative x \<noteq> isNegative y)
      in if x = NaN \<or> y = NaN then NaN
         else if isInfinite x \<or> isInfinite y
         then (if isZero x \<or> isZero y then NaN else signedInfinity negative)
         else if isZero x \<or> isZero y then signedZero negative
         else toDouble (realValue x * realValue y))"

text \<open>\<^verbatim>\<open>x < y\<close>: false when an operand is NaN; the two zeros are equal.\<close>

definition js_less :: "jsnum \<Rightarrow> jsnum \<Rightarrow> bool" where
  "js_less x y =
     (x \<noteq> NaN \<and> y \<noteq> NaN \<and>
      (if x = Infinity \<or> y = MinusInfinity then False
       else if x = MinusInfinity \<or> y = Infinity then True
       else realValue x < realValue y))"

text \<open>
  \<^verbatim>\<open>Math.round\<close> on such a value: NaN, the infinities and negative zero are returned
  as they are, and a negative number that rounds to zero gives negative zero.
\<close>

fun Math_round_jsnum :: "jsnum \<Rightarrow> jsnum" where
  "Math_round_jsnum (Finite x) =
     (if Math_round x = 0 \<and> x < 0 then NegZero else Finite (Math_round x))"
| "Math_round_jsnum x = x"

definition isUpper :: "char \<Rightarrow> bool" where
  "isUpper c = (65 \<le> (of_char c :: nat) \<and> (of_char c :: nat) \<le> 90)"

text \<open>An upper-case ASCII letter becomes lower case by setting bit 5 (adding 32).\<close>

definition lower_char :: "char \<Rightarrow> char" where
  "lower_char c =
     (if isUpper c
      then Char (digit0 c) (digit1 c) (digit2 c) (digit3 c) (digit4 c) True (digit6 c) (digit7 c)
      else c)"

definition toLowerCase :: "string \<Rightarrow> string" where
  "toLowerCase s = map lower_char s"

definition isWhiteSpace :: "char \<Rightarrow> bool" where
  "isWhiteSpace c = ((of_char c :: nat) \<in> {9, 10, 11, 12, 13, 32})"

definition trim :: "string \<Rightarrow> string" where
  "trim s = rev (dropWhile isWhiteSpace (rev (dropWhile isWhiteSpace s)))"

subsection \<open>The data of a transcript\<close>

text \<open>
  \<^verbatim>\<open>interface Word { text; start; end; confidence; type? }\<close>. The analyzer tests
  \<^verbatim>\<open>typeof start === 'number'\<close>, \<^verbatim>\<open>confidence ?? 1\<close>, \<^verbatim>\<open>confidence || 0\<close> and
  \<^verbatim>\<open>type !== 'disfluency'\<close>, so these four fields may be absent.
\<close>

record Word =
  w_text :: string
  w_start :: "number option"
  w_end :: "number option"
  w_confidence :: "number option"
  w_type :: "string option"

record Timestamp =
  ts_start :: number
  ts_end :: number

record Highlight =
  h_text :: string
  h_count :: nat
  h_rank :: "number option"
  h_timestamps :: "Timestamp list option"

text \<open>Utterances are passed through uninterpreted.\<close>

type_synonym utterance = string

text \<open>
  The JSON of one poll of \<^verbatim>\<open>GET /v2/transcript/{id}\<close>: the job status, the error text
  and, once completed, the transcript. A status that is absent behaves like any string
  other than \<^verbatim>\<open>completed\<close> and \<^verbatim>\<open>error\<close>.
\<close>

record Transcript =
  t_status :: string
  t_error :: string
  t_text :: string
  t_words :: "Word list option"
  t_audio_duration :: "number option"
  t_auto_highlights :: "Highlight list option"
  t_utterances :: "utterance list option"

subsection \<open>Plain objects used as counters\<close>

text \<open>
  The values that \<^verbatim>\<open>counts[k]\<close> can read: \<open>Undefined\<close> (no such property), a number, a
  string (\<open>Str\<close>), or an object or function inherited from \<^verbatim>\<open>Object.prototype\<close>
  (\<open>Obj\<close>). A string value is never numeric here: it is the source text of a function or
  \<^verbatim>\<open>[object Object]\<close> followed by digits \<^verbatim>\<open>1\<close>, so its numeric value is NaN.
\<close>

datatype jsval = Undefined | Num nat | Str | Obj

type_synonym counts = "(string \<times> jsval) list"

text \<open>
  \<^verbatim>\<open>counts[k]\<close> on an object created by \<^verbatim>\<open>{}\<close>: an own property wins; otherwise the
  lookup reaches \<^verbatim>\<open>Object.prototype\<close>. The keys here are lower-cased, and the only
  properties of \<^verbatim>\<open>Object.prototype\<close> with an all-lower-case name are
  \<^verbatim>\<open>constructor\<close> (a function) and \<^verbatim>\<open>__proto__\<close> (an accessor returning an object).
\<close>

definition inheritedKey :: "string \<Rightarrow> bool" where
  "inheritedKey k = (k = ''constructor'' \<or> k = ''__proto__'')"

definition getProp :: "counts \<Rightarrow> string \<Rightarrow> jsval" where
  "getProp obj k =
     (case map_of obj k of
        Some v \<Rightarrow> v
      | None \<Rightarrow> if inheritedKey k then Obj else Undefined)"

text \<open>
  \<^verbatim>\<open>counts[k] = v\<close> for a value that is not an object: it creates or updates the own
  property \<open>k\<close> (a new property goes last), except that the setter of \<^verbatim>\<open>__proto__\<close>
  ignores it.
\<close>

definition setProp :: "counts \<Rightarrow> string \<Rightarrow> jsval \<Rightarrow> counts" where
  "setProp obj k v = (if k = ''__proto__'' then obj else AList.update k v obj)"

text \<open>
  \<^verbatim>\<open>(v || 0) + 1\<close>: undefined and 0 are falsy and give 1; a number is incremented; a
  non-empty string or an object is truthy and \<^verbatim>\<open>+ 1\<close> concatenates, giving a string.
\<close>

fun orZeroPlusOne :: "jsval \<Rightarrow> jsval" where
  "orZeroPlusOne Undefined = Num 1"
| "orZeroPlusOne (Num n) = Num (n + 1)"
| "orZeroPlusOne Str = Str"
| "orZeroPlusOne Obj = Str"

text \<open>\<^verbatim>\<open>counts[k] = (counts[k] || 0) + 1\<close>\<close>

definition countUp :: "counts \<Rightarrow> string \<Rightarrow> counts" where
  "countUp obj k = setProp obj k (orZeroPlusOne (getProp obj k))"

text \<open>
  An array index is the canonical decimal string of an integer from 0 to \<open>2^32 - 2\<close>.
  \<^verbatim>\<open>Object.entries\<close> lists the array-index keys first, in ascending numeric order, and
  then the other keys in creation order.
\<close>

definition isDigit :: "char \<Rightarrow> bool" where
  "isDigit c = (48 \<le> (of_char c :: nat) \<and> (of_char c :: nat) \<le> 57)"

definition digitsValue :: "string \<Rightarrow> int" where
  "digitsValue s = foldl (\<lambda>n c. 10 * n + ((of_char c :: int) - 48)) 0 s"

definition isArrayIndex :: "string \<Rightarrow> bool" where
  "isArrayIndex k =
     (k \<noteq> [] \<and> list_all isDigit k \<and> (hd k = CHR ''0'' \<longrightarrow> length k = 1) \<and>
      length k \<le> 10 \<and> digitsValue k \<le> 4294967294)"

definition Object_entries :: "(string \<times> 'v) list \<Rightarrow> (string \<times> 'v) list" where
  "Object_entries obj =
     sort_key (\<lambda>(k, v). digitsValue k) (filter (\<lambda>(k, v). isArrayIndex k) obj) @
     filter (\<lambda>(k, v). \<not> isArrayIndex k) obj"

record WordCount =
  wc_word :: string
  wc_count :: jsval

text \<open>
  \<^verbatim>\<open>b.count - a.count\<close> as the sign a comparator returns: negative puts \<open>a\<close> first. With
  a string count the difference is NaN, which \<^verbatim>\<open>sort\<close> reads as 0.
\<close>

fun countDiff :: "jsval \<Rightarrow> jsval \<Rightarrow> int" where
  "countDiff (Num b) (Num a) = int b - int a"
| "countDiff _ _ = 0"

text \<open>
  \<^verbatim>\<open>Array.prototype.sort\<close> with a comparator is stable. The model inserts each element,
  last first, before the first element it does not come after; for a consistent
  comparator that is the one stable sorted order. (With string counts the comparator is
  not consistent and ECMAScript leaves the order to the engine; the theorems about sorted
  tables are stated for numeric counts.)
\<close>

fun insertBy :: "('a \<Rightarrow> 'a \<Rightarrow> int) \<Rightarrow> 'a \<Rightarrow> 'a list \<Rightarrow> 'a list" where
  "insertBy cmp x [] = [x]"
| "insertBy cmp x (y # ys) = (if cmp x y \<le> 0 then x # y # ys else y # insertBy cmp x ys)"

definition sortBy :: "('a \<Rightarrow> 'a \<Rightarrow> int) \<Rightarrow> 'a list \<Rightarrow> 'a list" where
  "sortBy cmp xs = foldr (insertBy cmp) xs []"

definition byCountDesc :: "WordCount \<Rightarrow> WordCount \<Rightarrow> int" where
  "byCountDesc a b = countDiff (wc_count b) (wc_count a)"

subsection \<open>analyzeTranscript\<close>

text \<open>\<^verbatim>\<open>const COMMON_FILLERS = ['like', 'because', 'so', 'um', 'uh', 'you know']\<close>\<close>

definition COMMON_FILLERS :: "string list" where
  "COMMON_FILLERS = [''like'', ''because'', ''so'', ''um'', ''uh'', ''you know'']"

record Pause =
  p_start :: number
  p_end :: number
  p_duration :: number

record PronunciationIssue =
  pi_word :: string
  pi_confidence :: "number option"

text \<open>\<^verbatim>\<open>word.type === 'disfluency'\<close>\<close>

definition isDisfluency :: "Word \<Rightarrow> bool" where
  "isDisfluency word = (w_type word = Some ''disfluency'')"

text \<open>\<^verbatim>\<open>transcript.words || []\<close>\<close>

definition wordsOf :: "Transcript \<Rightarrow> Word list" where
  "wordsOf transcript = (case t_words transcript of Some ws \<Rightarrow> ws | None \<Rightarrow> [])"

text \<open>\<^verbatim>\<open>transcript.audio_duration || 1\<close>: an absent duration and 0 are falsy.\<close>

definition totalDurationSeconds :: "Transcript \<Rightarrow> number" where
  "totalDurationSeconds transcript =
     (case t_audio_duration transcript of
        None \<Rightarrow> 1
      | Some d \<Rightarrow> if d = 0 then 1 else d)"

text \<open>
  \<^verbatim>\<open>totalDurationSeconds / 60\<close>, computed in doubles: the duration in seconds is never
  zero, but a duration of at most \<open>30 * 2^-1074\<close> seconds in magnitude gives a zero.
\<close>

definition totalDurationMinutes :: "Transcript \<Rightarrow> jsnum" where
  "totalDurationMinutes transcript = js_divide (Finite (totalDurationSeconds transcript)) (Finite 60)"

definition fillersOf :: "Word list \<Rightarrow> Word list" where
  "fillersOf words = filter isDisfluency words"

text \<open>The \<^verbatim>\<open>forEach\<close> over the fillers that fills \<^verbatim>\<open>fillerCounts\<close>.\<close>

definition fillerCounts :: "Word list \<Rightarrow> counts" where
  "fillerCounts fillers =
     foldl (\<lambda>obj filler. countUp obj (trim (toLowerCase (w_text filler)))) [] fillers"

definition toWordCount :: "string \<times> jsval \<Rightarrow> WordCount" where
  "toWordCount = (\<lambda>(word, count). \<lparr>wc_word = word, wc_count = count\<rparr>)"

text \<open>\<^verbatim>\<open>Object.entries(fillerCounts).map(...).sort((a, b) => b.count - a.count).slice(0, 10)\<close>\<close>

definition mostUsedFillers :: "Word list \<Rightarrow> WordCount list" where
  "mostUsedFillers fillers =
     take 10 (sortBy byCountDesc (map toWordCount (Object_entries (fillerCounts fillers))))"

text \<open>
  The fixed vocabulary: every key starts at 0, and a word whose lower-cased text is in
  the vocabulary increments its key. The keys are own properties and none is an array
  index, so the list is the object in creation order.
\<close>

definition commonFillerCounts :: "Word list \<Rightarrow> (string \<times> nat) list" where
  "commonFillerCounts words =
     foldl (\<lambda>obj word.
              (let w = toLowerCase (w_text word)
               in if w \<in> set COMMON_FILLERS then AList.map_entry w Suc obj else obj))
       (map (\<lambda>filler. (filler, 0)) COMMON_FILLERS) words"

text \<open>\<^verbatim>\<open>(w.confidence ?? 1) < 0.6 && w.type !== 'disfluency'\<close>\<close>

definition lowConfidence :: "Word \<Rightarrow> bool" where
  "lowConfidence w =
     ((case w_confidence w of None \<Rightarrow> 1 | Some c \<Rightarrow> c) < 6 / 10 \<and> \<not> isDisfluency w)"

definition pronunciationIssues :: "Word list \<Rightarrow> PronunciationIssue list" where
  "pronunciationIssues words =
     map (\<lambda>w. \<lparr>pi_word = w_text w, pi_confidence = w_confidence w\<rparr>) (filter lowConfidence words)"

text \<open>
  The body of \<^verbatim>\<open>for (let i = 1; i < words.length; i++)\<close>: the pause between
  \<open>words[i - 1]\<close> and \<open>words[i]\<close>, pushed when both times are numbers and the gap is
  above 2.5 seconds.
\<close>

definition pauseStep :: "Word \<Rightarrow> Word \<Rightarrow> Pause list \<Rightarrow> Pause list" where
  "pauseStep prevWord currentWord longPauses =
     (case (w_end prevWord, w_start currentWord) of
        (Some e, Some s) \<Rightarrow>
          (let pauseDuration = s - e
           in if pauseDuration > 25 / 10
              then longPauses @ [\<lparr>p_start = e, p_end = s, p_duration = pauseDuration\<rparr>]
              else longPauses)
      | _ \<Rightarrow> longPauses)"

function longPausesLoop :: "Word list \<Rightarrow> nat \<Rightarrow> Pause list \<Rightarrow> Pause list" where
  "longPausesLoop words i longPauses =
     (if i < length words
      then longPausesLoop words (i + 1) (pauseStep (words ! (i - 1)) (words ! i) longPauses)
      else longPauses)"
  by pat_completeness auto
termination
  by (relation "measure (\<lambda>(words, i, longPauses). length words - i)") auto

declare longPausesLoop.simps [simp del]

definition longPausesOf :: "Word list \<Rightarrow> Pause list" where
  "longPausesOf words = longPausesLoop words 1 []"

definition nonFillerWords :: "Word list \<Rightarrow> Word list" where
  "nonFillerWords words = filter (\<lambda>word. \<not> isDisfluency word) words"

text \<open>\<^verbatim>\<open>word.confidence || 0\<close>: an absent confidence counts as 0.\<close>

definition confidenceOrZero :: "Word \<Rightarrow> number" where
  "confidenceOrZero word = (case w_confidence word of None \<Rightarrow> 0 | Some c \<Rightarrow> c)"

definition avgConfidence :: "Word list \<Rightarrow> number" where
  "avgConfidence words =
     (let nonFiller = nonFillerWords words
      in if length nonFiller > 0
         then foldl (\<lambda>sum word. sum + confidenceOrZero word) 0 nonFiller / of_nat (length nonFiller)
         else 0)"

text \<open>
  \<^verbatim>\<open>totalWords / totalDurationMinutes\<close> and \<^verbatim>\<open>fillers.length / totalDurationMinutes\<close>:
  with a zero divisor the quotient is an infinity, or NaN when the count is 0.
\<close>

definition speakingPaceOf :: "Transcript \<Rightarrow> jsnum" where
  "speakingPaceOf transcript =
     js_divide (Finite (of_nat (length (nonFillerWords (wordsOf transcript)))))
       (totalDurationMinutes transcript)"

definition fillerRateOf :: "Transcript \<Rightarrow> jsnum" where
  "fillerRateOf transcript =
     js_divide (Finite (of_nat (length (fillersOf (wordsOf transcript)))))
       (totalDurationMinutes transcript)"

subsection \<open>generateFeedback\<close>

text \<open>
  The messages are kept as values, one constructor per string literal or template of the
  source (the texts contain emoji); a template carries the values it interpolates. The
  order of the constructors is the order of the source.
\<close>

datatype feedback_msg =
    FewFillers                           \<comment> \<open>Excellent! Very few filler words detected.\<close>
  | GoodFillerControl                     \<comment> \<open>Good control of filler words, but there's room ...\<close>
  | HighFillerUsage jsnum                 \<comment> \<open>High filler word usage detected (rate/min). ...\<close>
  | MostUsedFiller string jsval           \<comment> \<open>Your most used filler word is "word" (count times).\<close>
  | CommonFillersUsed "(string \<times> nat) list" \<comment> \<open>You used common filler words: ...\<close>
  | PaceSlow                              \<comment> \<open>Your speaking pace is quite slow. ...\<close>
  | PaceFast                              \<comment> \<open>You're speaking quite fast. ...\<close>
  | PaceGood                              \<comment> \<open>Your speaking pace is in a good range ...\<close>
  | LongPausesDetected nat                \<comment> \<open>n long pause(s) detected. ...\<close>
  | GoodFlow                              \<comment> \<open>Good flow with appropriate pausing.\<close>
  | ClearArticulation                     \<comment> \<open>Clear articulation detected ...\<close>
  | GenerallyClear                        \<comment> \<open>Generally clear speech with some areas ...\<close>
  | SpeakMoreClearly                      \<comment> \<open>Consider speaking more clearly ...\<close>
  | PronunciationIssuesOn "string list"   \<comment> \<open>Potential pronunciation issues detected on words: ...\<close>

datatype recommendation =
    PracticePausing                       \<comment> \<open>Practice pausing instead of using filler words when ...\<close>
  | RecordAndBecomeAware                  \<comment> \<open>Record yourself regularly and become aware of ...\<close>
  | SpeakSlowlyDeliberately               \<comment> \<open>Practice speaking more slowly and deliberately.\<close>
  | BeMindfulOf string                    \<comment> \<open>Be especially mindful of saying "word" ...\<close>
  | PausingNotCommonFillers               \<comment> \<open>Practice pausing instead of using common filler words.\<close>
  | Practice150Wpm                        \<comment> \<open>Practice speaking at 150-160 words per minute ...\<close>
  | DeliberatePauses                      \<comment> \<open>Take deliberate pauses between sentences ...\<close>
  | PrepareContent                        \<comment> \<open>Prepare your content more thoroughly ...\<close>
  | PracticeMultipleTimes                 \<comment> \<open>Practice your presentation multiple times ...\<close>
  | SpeakClearlyKeyWords                  \<comment> \<open>Speak more clearly and ensure proper pronunciation ...\<close>
  | ArticulationExercises                 \<comment> \<open>Practice articulation exercises and speak more slowly.\<close>
  | WorkOnPronunciation                   \<comment> \<open>Work on clear articulation and pronunciation, ...\<close>
  | CompareToNativeSpeakers               \<comment> \<open>Record yourself and compare to native speakers.\<close>
  | TrackImprovement                      \<comment> \<open>Record yourself regularly to track improvement ...\<close>
  | PracticeWithMirror                    \<comment> \<open>Practice in front of a mirror or with friends ...\<close>

record FeedbackMetrics =
  m_totalFillers :: nat
  m_fillerRate :: jsnum
  m_longPauses :: "Pause list"
  m_speakingPace :: jsnum
  m_avgConfidence :: number
  m_totalDurationMinutes :: jsnum
  m_mostUsedFillers :: "WordCount list"
  m_commonFillerCounts :: "(string \<times> nat) list option"
  m_pronunciationIssues :: "PronunciationIssue list option"

text \<open>
  Each block of the function pushes to \<^verbatim>\<open>feedback\<close> and \<^verbatim>\<open>recommendations\<close>; a rule
  below is one block, returning what it pushes to each.
\<close>

type_synonym pushes = "feedback_msg list \<times> recommendation list"

definition fillerRateRule :: "jsnum \<Rightarrow> pushes" where
  "fillerRateRule fillerRate =
     (if js_less fillerRate (Finite 2) then ([FewFillers], [])
      else if js_less fillerRate (Finite 5) then ([GoodFillerControl], [PracticePausing])
      else ([HighFillerUsage fillerRate], [RecordAndBecomeAware, SpeakSlowlyDeliberately]))"

definition topFillerRule :: "WordCount list \<Rightarrow> pushes" where
  "topFillerRule mostUsed =
     (case mostUsed of
        [] \<Rightarrow> ([], [])
      | topFiller # _ \<Rightarrow>
          ([MostUsedFiller (wc_word topFiller) (wc_count topFiller)],
           [BeMindfulOf (wc_word topFiller)]))"

definition commonFillersRule :: "(string \<times> nat) list option \<Rightarrow> pushes" where
  "commonFillersRule common =
     (case common of
        None \<Rightarrow> ([], [])
      | Some entries \<Rightarrow>
          (let usedFillers = filter (\<lambda>(_, count). count > 0) entries
           in if length usedFillers > 0
              then ([CommonFillersUsed usedFillers], [PausingNotCommonFillers])
              else ([], [])))"

definition paceRule :: "jsnum \<Rightarrow> pushes" where
  "paceRule speakingPace =
     (if js_less speakingPace (Finite 120) then ([PaceSlow], [Practice150Wpm])
      else if js_less (Finite 200) speakingPace then ([PaceFast], [DeliberatePauses])
      else ([PaceGood], []))"

definition pausesRule :: "Pause list \<Rightarrow> jsnum \<Rightarrow> pushes" where
  "pausesRule longPauses durationMinutes =
     (if length longPauses > 0
      then ([LongPausesDetected (length longPauses)],
            if js_less (js_times durationMinutes (Finite 2)) (Finite (of_nat (length longPauses)))
            then [PrepareContent, PracticeMultipleTimes] else [])
      else ([GoodFlow], []))"

definition confidenceRule :: "number \<Rightarrow> pushes" where
  "confidenceRule avg =
     (if avg > 8 / 10 then ([ClearArticulation], [])
      else if avg > 6 / 10 then ([GenerallyClear], [SpeakClearlyKeyWords])
      else ([SpeakMoreClearly], [ArticulationExercises]))"

text \<open>\<^verbatim>\<open>Array.from(new Set(xs))\<close>: the first occurrence of each element, in order.\<close>

definition uniqueInOrder :: "'a list \<Rightarrow> 'a list" where
  "uniqueInOrder xs = rev (remdups (rev xs))"

definition pronunciationRule :: "PronunciationIssue list option \<Rightarrow> pushes" where
  "pronunciationRule issues =
     (case issues of
        None \<Rightarrow> ([], [])
      | Some is \<Rightarrow>
          if length is > 0
          then ([PronunciationIssuesOn (uniqueInOrder (map (\<lambda>i. toLowerCase (pi_word i)) is))],
                [WorkOnPronunciation, CompareToNativeSpeakers])
          else ([], []))"

record Feedback =
  feedback :: "feedback_msg list"
  recommendations :: "recommendation list"

definition feedbackRules :: "FeedbackMetrics \<Rightarrow> pushes list" where
  "feedbackRules metrics =
     [fillerRateRule (m_fillerRate metrics),
      topFillerRule (m_mostUsedFillers metrics),
      commonFillersRule (m_commonFillerCounts metrics),
      paceRule (m_speakingPace metrics),
      pausesRule (m_longPauses metrics) (m_totalDurationMinutes metrics),
      confidenceRule (m_avgConfidence metrics),
      pronunciationRule (m_pronunciationIssues metrics)]"

definition generateFeedback :: "FeedbackMetrics \<Rightarrow> Feedback" where
  "generateFeedback metrics =
     \<lparr>feedback = concat (map fst (feedbackRules metrics)),
      recommendations =
        concat (map snd (feedbackRules metrics)) @ [TrackImprovement, PracticeWithMirror]\<rparr>"

subsection \<open>The result of analyzeTranscript\<close>

record Analysis =
  a_totalFillers :: nat
  a_fillerRate :: jsnum
  a_mostUsedFillers :: "WordCount list"
  a_commonFillerCounts :: "(string \<times> nat) list"
  a_longPauses :: "Pause list"
  a_speakingPace :: jsnum
  a_confidenceScore :: number
  a_pronunciationIssues :: "PronunciationIssue list"
  a_feedback :: "feedback_msg list"
  a_recommendations :: "recommendation list"
  a_fillers :: "Word list"

definition feedbackData :: "Transcript \<Rightarrow> Feedback" where
  "feedbackData transcript =
     (let words = wordsOf transcript; fillers = fillersOf words
      in generateFeedback
           \<lparr>m_totalFillers = length fillers,
            m_fillerRate = fillerRateOf transcript,
            m_longPauses = longPausesOf words,
            m_speakingPace = speakingPaceOf transcript,
            m_avgConfidence = avgConfidence words,
            m_totalDurationMinutes = totalDurationMinutes transcript,
            m_mostUsedFillers = mostUsedFillers fillers,
            m_commonFillerCounts = Some (commonFillerCounts words),
            m_pronunciationIssues = Some (pronunciationIssues words)\<rparr>)"

definition analyzeTranscript :: "Transcript \<Rightarrow> Analysis" where
  "analyzeTranscript transcript =
     (let words = wordsOf transcript; fillers = fillersOf words
      in \<lparr>a_totalFillers = length fillers,
          a_fillerRate =
            js_divide (Math_round_jsnum (js_times (fillerRateOf transcript) (Finite 10))) (Finite 10),
          a_mostUsedFillers = mostUsedFillers fillers,
          a_commonFillerCounts = commonFillerCounts words,
          a_longPauses = longPausesOf words,
          a_speakingPace = Math_round_jsnum (speakingPaceOf transcript),
          a_confidenceScore = Math_round (avgConfidence words * 100),
          a_pronunciationIssues = pronunciationIssues words,
          a_feedback = feedback (feedbackData transcript),
          a_recommendations = recommendations (feedbackData transcript),
          a_fillers = fillers\<rparr>)"

subsection \<open>getRepeatedWords\<close>

text \<open>\<^verbatim>\<open>count > 1\<close>: a string count compares as NaN, which is not above 1.\<close>

fun aboveOne :: "jsval \<Rightarrow> bool" where
  "aboveOne (Num n) = (n > 1)"
| "aboveOne _ = False"

definition repeatedCounts :: "Word list \<Rightarrow> counts" where
  "repeatedCounts words =
     foldl (\<lambda>counts w.
              if \<not> isDisfluency w
              then (let wtext = toLowerCase (w_text w)
                    in if length wtext > 1 then countUp counts wtext else counts)
              else counts)
       [] words"

definition getRepeatedWords :: "Word list \<Rightarrow> WordCount list" where
  "getRepeatedWords words =
     sortBy byCountDesc
       (map toWordCount (filter (\<lambda>(_, count). aboveOne count) (Object_entries (repeatedCounts words))))"

subsection \<open>analyzeAudio\<close>

text \<open>
  What can be thrown inside the \<^verbatim>\<open>try\<close>: a rejected upload or fetch, a body that is not
  JSON, a property read on a body that is not an object, and \<^verbatim>\<open>new Error(data.error)\<close>
  of the poll loop.
\<close>

datatype exn = NetworkFailure | SyntaxError | TypeError | Error string

text \<open>
  The remote service as the run sees it: the outcome of the upload (the
  \<^verbatim>\<open>upload_url\<close> of the parsed body, which may be absent), the outcome of the request
  that starts the job (its \<^verbatim>\<open>id\<close>, which may be absent), and the outcomes of the
  successive polls. The list of polls is finite: a run that has used them all without
  leaving the loop is still polling.
\<close>

record Remote =
  uploadOutcome :: "exn + string option"
  startOutcome :: "exn + string option"
  pollOutcomes :: "(exn + Transcript) list"

datatype 'a run = StillPolling | Finished 'a

text \<open>
  The \<^verbatim>\<open>while (true)\<close> loop, with the number of polls made so far. A poll that throws
  ends the loop with that exception; status \<^verbatim>\<open>completed\<close> ends it with the data;
  status \<^verbatim>\<open>error\<close> throws \<^verbatim>\<open>new Error(data.error)\<close>; any other status polls again
  (after a delay of two seconds, which the model does not measure).
\<close>

fun pollLoop :: "(exn + Transcript) list \<Rightarrow> nat \<Rightarrow> (exn + Transcript) run \<times> nat" where
  "pollLoop [] n = (StillPolling, n)"
| "pollLoop (Inl e # rest) n = (Finished (Inl e), n + 1)"
| "pollLoop (Inr data # rest) n =
     (if t_status data = ''completed'' then (Finished (Inr data), n + 1)
      else if t_status data = ''error'' then (Finished (Inl (Error (t_error data))), n + 1)
      else pollLoop rest (n + 1))"

record AnalysisResult =
  r_text :: string
  r_words :: "Word list"
  r_fillers :: "Word list"
  r_utterances :: "utterance list"
  r_highlights :: "Highlight list"
  r_repeatedWords :: "WordCount list"
  r_analysis :: Analysis

text \<open>Steps 4 to 7: the result built from a completed transcript.\<close>

definition buildResult :: "Transcript \<Rightarrow> AnalysisResult" where
  "buildResult transcript =
     (let analysis = analyzeTranscript transcript
      in \<lparr>r_text = t_text transcript,
          r_words = wordsOf transcript,
          r_fillers = a_fillers analysis,
          r_utterances = (case t_utterances transcript of Some us \<Rightarrow> us | None \<Rightarrow> []),
          r_highlights = (case t_auto_highlights transcript of Some hs \<Rightarrow> hs | None \<Rightarrow> []),
          r_repeatedWords = getRepeatedWords (wordsOf transcript),
          r_analysis = analysis\<rparr>)"

text \<open>
  The body of the \<^verbatim>\<open>try\<close>: upload, start, poll, build. An absent \<^verbatim>\<open>upload_url\<close> or
  \<^verbatim>\<open>id\<close> is not tested by the code: the run goes on to the next request.
\<close>

definition tryBody :: "Remote \<Rightarrow> (exn + AnalysisResult) run" where
  "tryBody remote =
     (case uploadOutcome remote of
        Inl e \<Rightarrow> Finished (Inl e)
      | Inr audioUrl \<Rightarrow>
          (case startOutcome remote of
             Inl e \<Rightarrow> Finished (Inl e)
           | Inr transcriptId \<Rightarrow>
               (case fst (pollLoop (pollOutcomes remote) 0) of
                  StillPolling \<Rightarrow> StillPolling
                | Finished (Inl e) \<Rightarrow> Finished (Inl e)
                | Finished (Inr transcript) \<Rightarrow> Finished (Inr (buildResult transcript)))))"

text \<open>
  \<^verbatim>\<open>catch (error) { console.error(...); return null; }\<close>: the value returned is
  \<open>None\<close> for \<^verbatim>\<open>null\<close>.
\<close>

definition analyzeAudio :: "Remote \<Rightarrow> AnalysisResult option run" where
  "analyzeAudio remote =
     (case tryBody remote of
        StillPolling \<Rightarrow> StillPolling
      | Finished (Inl error) \<Rightarrow> Finished None
      | Finished (Inr result) \<Rightarrow> Finished (Some result))"

subsection \<open>Vocabulary of the statements\<close>

text \<open>A poll that returned data whose status is neither \<^verbatim>\<open>completed\<close> nor \<^verbatim>\<open>error\<close>.\<close>

definition nonTerminal :: "exn + Transcript \<Rightarrow> bool" where
  "nonTerminal r =
     (case r of Inl e \<Rightarrow> False
      | Inr data \<Rightarrow> t_status data \<noteq> ''completed'' \<and> t_status data \<noteq> ''error'')"

text \<open>The pause, if any, that the loop emits between two adjacent words.\<close>

definition pauseBetween :: "Word \<Rightarrow> Word \<Rightarrow> Pause option" where
  "pauseBetween prevWord currentWord =
     (case (w_end prevWord, w_start currentWord) of
        (Some e, Some s) \<Rightarrow>
          if s - e > 25 / 10 then Some \<lparr>p_start = e, p_end = s, p_duration = s - e\<rparr> else None
      | _ \<Rightarrow> None)"

text \<open>The arithmetic mean of a list of numbers, 0 for the empty list.\<close>

definition arithmeticMean :: "number list \<Rightarrow> number" where
  "arithmeticMean xs = (if xs = [] then 0 else sum_list xs / of_nat (length xs))"

text \<open>\<^verbatim>\<open>x >= 0\<close> and \<^verbatim>\<open>Number.isFinite(x)\<close>.\<close>

definition notNegative :: "jsnum \<Rightarrow> bool" where
  "notNegative x = (x \<noteq> NaN \<and> \<not> js_less x (Finite 0))"


text \<open>
  The duration in seconds, divided by 60, stays in the range of a double: it neither
  underflows to zero nor overflows. Every duration that is a double satisfies the upper
  bound; the lower bound holds from \<open>31 * 2^-1074\<close> seconds on.
\<close>

definition durationInRange :: "Transcript \<Rightarrow> bool" where
  "durationInRange transcript =
     (1 / 2 ^ 1075 < \<bar>totalDurationSeconds transcript\<bar> / 60 \<and>
      \<bar>totalDurationSeconds transcript\<bar> / 60 < 2 ^ 1024 - 2 ^ 970)"

text \<open>The duration field is absent or not negative.\<close>

definition durationNotNegative :: "Transcript \<Rightarrow> bool" where
  "durationNotNegative transcript =
     (case t_audio_duration transcript of None \<Rightarrow> True | Some d \<Rightarrow> 0 \<le> d)"

text \<open>The confidence of a word is present and lies between 0 and 1.\<close>

definition confidenceInUnit :: "Word \<Rightarrow> bool" where
  "confidenceInUnit w = (case w_confidence w of None \<Rightarrow> False | Some c \<Rightarrow> 0 \<le> c \<and> c \<le> 1)"

text \<open>
  The keys under which the analyzer counts the fillers, and the keys under which
  \<^verbatim>\<open>getRepeatedWords\<close> counts the spoken words.
\<close>

definition fillerKeys :: "Word list \<Rightarrow> string list" where
  "fillerKeys fillers = map (\<lambda>filler. trim (toLowerCase (w_text filler))) fillers"

definition repeatedKeys :: "Word list \<Rightarrow> string list" where
  "repeatedKeys words =
     filter (\<lambda>k. length k > 1)
       (map (\<lambda>w. toLowerCase (w_text w)) (filter (\<lambda>w. \<not> isDisfluency w) words))"

text \<open>
  The frequency table of a list of keys: every key once, in the order in which the keys
  are first seen, with its number of occurrences.
\<close>

definition frequencyTable :: "string list \<Rightarrow> (string \<times> nat) list" where
  "frequencyTable keys = map (\<lambda>k. (k, count_list keys k)) (uniqueInOrder keys)"

text \<open>
  Descending by count, entries of equal count staying in the order of the table
  (\<open>sort_key\<close> is the stable insertion sort of the library).
\<close>

definition byDescendingCount :: "(string \<times> nat) list \<Rightarrow> (string \<times> nat) list" where
  "byDescendingCount table = sort_key (\<lambda>(k, n). - int n) table"

definition numberedCount :: "string \<times> nat \<Rightarrow> WordCount" where
  "numberedCount = (\<lambda>(k, n). \<lparr>wc_word = k, wc_count = Num n\<rparr>)"

subsection \<open>Sample inputs\<close>

text \<open>Metrics of a clean answer: no filler, no pause, a good pace, clear speech.\<close>

definition quietMetrics :: FeedbackMetrics where
  "quietMetrics =
     \<lparr>m_totalFillers = 0, m_fillerRate = Finite 0, m_longPauses = [],
      m_speakingPace = Finite 150, m_avgConfidence = 9 / 10,
      m_totalDurationMinutes = Finite 1, m_mostUsedFillers = [],
      m_commonFillerCounts = Some [], m_pronunciationIssues = Some []\<rparr>"

text \<open>A poll response with the given status, and a remote whose upload and start succeed.\<close>

definition pollWith :: "string \<Rightarrow> Transcript" where
  "pollWith status =
     \<lparr>t_status = status, t_error = ''bad audio'', t_text = ''hello'', t_words = None,
      t_audio_duration = None, t_auto_highlights = None, t_utterances = None\<rparr>"

definition remoteWith :: "(exn + Transcript) list \<Rightarrow> Remote" where
  "remoteWith polls =
     \<lparr>uploadOutcome = Inr (Some ''https://cdn/upload/1''), startOutcome = Inr (Some ''job-1''),
      pollOutcomes = polls\<rparr>"

text \<open>A completed transcript with the given words and duration.\<close>

definition transcriptOf :: "Word list option \<Rightarrow> number option \<Rightarrow> Transcript" where
  "transcriptOf words duration =
     \<lparr>t_status = ''completed'', t_error = [], t_text = [], t_words = words,
      t_audio_duration = duration, t_auto_highlights = None, t_utterances = None\<rparr>"

text \<open>A spoken word and a filler, with their times and confidence.\<close>

definition spokenWord :: "string \<Rightarrow> number \<Rightarrow> number \<Rightarrow> number option \<Rightarrow> Word" where
  "spokenWord s b e c =
     \<lparr>w_text = s, w_start = Some b, w_end = Some e, w_confidence = c, w_type = None\<rparr>"

definition fillerWord :: "string \<Rightarrow> number \<Rightarrow> number \<Rightarrow> number option \<Rightarrow> Word" where
  "fillerWord s b e c =
     \<lparr>w_text = s, w_start = Some b, w_end = Some e, w_confidence = c,
      w_type = Some ''disfluency''\<rparr>"

section \<open>The feedback rules\<close>

lemma js_less_Finite: "js_less (Finite a) (Finite b) = (a < b)"
  by (simp add: js_less_def)

lemma generateFeedback_fillerRate_split:
  "feedback (generateFeedback (m\<lparr>m_fillerRate := r\<rparr>)) =
     fst (fillerRateRule r) @ concat (map fst (tl (feedbackRules m))) \<and>
   recommendations (generateFeedback (m\<lparr>m_fillerRate := r\<rparr>)) =
     snd (fillerRateRule r) @ concat (map snd (tl (feedbackRules m))) @
       [TrackImprovement, PracticeWithMirror]"
  by (simp add: generateFeedback_def feedbackRules_def)

text \<open>
  Claim C2, as the code has it. The filler-rate rule of \<^verbatim>\<open>generateFeedback\<close> has three
  bands: a rate strictly below 2 per minute gives the praise and no recommendation; a
  rate from 2 up to, but not including, 5 gives the mild caution and exactly one
  recommendation; a rate of 5 or more gives the warning and exactly two recommendations.
  These messages open the feedback and the recommendations of \<^verbatim>\<open>generateFeedback\<close>,
  and nothing after them depends on the filler rate. The rate \<open>r\<close> is any real number,
  handed to the rule as the finite value \<open>Finite r\<close>.
\<close>

theorem fillerRateRule_bands:
  "(r < 2 \<longrightarrow> fillerRateRule (Finite r) = ([FewFillers], [])) \<and>
   (2 \<le> r \<and> r < 5 \<longrightarrow> fillerRateRule (Finite r) = ([GoodFillerControl], [PracticePausing])) \<and>
   (5 \<le> r \<longrightarrow>
      fillerRateRule (Finite r) =
        ([HighFillerUsage (Finite r)], [RecordAndBecomeAware, SpeakSlowlyDeliberately])) \<and>
   feedback (generateFeedback (m\<lparr>m_fillerRate := Finite r\<rparr>)) =
     fst (fillerRateRule (Finite r)) @ concat (map fst (tl (feedbackRules m))) \<and>
   recommendations (generateFeedback (m\<lparr>m_fillerRate := Finite r\<rparr>)) =
     snd (fillerRateRule (Finite r)) @ concat (map snd (tl (feedbackRules m))) @
       [TrackImprovement, PracticeWithMirror]"
  using generateFeedback_fillerRate_split [where m = m and r = "Finite r"]
  by (simp add: fillerRateRule_def js_less_Finite)

text \<open>The three bands at the rates 1, 3 and 7, and the whole feedback at rate 3.\<close>

theorem fillerRateRule_bands_witness:
  "fillerRateRule (Finite 1) = ([FewFillers], []) \<and>
   fillerRateRule (Finite 3) = ([GoodFillerControl], [PracticePausing]) \<and>
   fillerRateRule (Finite 7) =
     ([HighFillerUsage (Finite 7)], [RecordAndBecomeAware, SpeakSlowlyDeliberately]) \<and>
   feedback (generateFeedback (quietMetrics\<lparr>m_fillerRate := Finite 3\<rparr>)) =
     [GoodFillerControl, PaceGood, GoodFlow, ClearArticulation] \<and>
   recommendations (generateFeedback (quietMetrics\<lparr>m_fillerRate := Finite 3\<rparr>)) =
     [PracticePausing, TrackImprovement, PracticeWithMirror]"
proof -
  have rest: "tl (feedbackRules quietMetrics) =
      [([], []), ([], []), ([PaceGood], []), ([GoodFlow], []), ([ClearArticulation], []), ([], [])]"
    by (simp add: feedbackRules_def quietMetrics_def topFillerRule_def commonFillersRule_def
        paceRule_def pausesRule_def confidenceRule_def pronunciationRule_def js_less_Finite)
  show ?thesis
    using fillerRateRule_bands [of 1 quietMetrics] fillerRateRule_bands [of 3 quietMetrics]
      fillerRateRule_bands [of 7 quietMetrics]
    by (simp add: rest)
qed

text \<open>
  Claim C2 as stated puts the rate 5 in the middle band (2 to 5, the warning being for
  rates strictly above 5). The code tests \<^verbatim>\<open>fillerRate < 5\<close>: at exactly 5 fillers per
  minute it gives the warning and two recommendations.
\<close>

theorem fillerRateRule_five_counterexample:
  "\<not> (\<forall>r. 2 \<le> r \<and> r \<le> 5 \<longrightarrow>
        fillerRateRule (Finite r) = ([GoodFillerControl], [PracticePausing]))"
proof
  assume "\<forall>r. 2 \<le> r \<and> r \<le> 5 \<longrightarrow>
      fillerRateRule (Finite r) = ([GoodFillerControl], [PracticePausing])"
  then have "fillerRateRule (Finite 5) = ([GoodFillerControl], [PracticePausing])" by simp
  then show False by (simp add: fillerRateRule_def js_less_Finite)
qed

section \<open>The polling job\<close>

lemma pollLoop_skip:
  "list_all nonTerminal pre \<Longrightarrow> pollLoop (pre @ rest) n = pollLoop rest (n + length pre)"
proof (induction pre arbitrary: n)
  case Nil
  then show ?case by simp
next
  case (Cons r pre)
  then show ?case
    by (cases r) (simp_all add: nonTerminal_def)
qed

lemma pollLoop_cases:
  "fst (pollLoop rs n) = StillPolling \<or>
   (\<exists>e. fst (pollLoop rs n) = Finished (Inl e)) \<or>
   (\<exists>data. Inr data \<in> set rs \<and> t_status data = ''completed'' \<and>
      fst (pollLoop rs n) = Finished (Inr data))"
proof (induction rs n rule: pollLoop.induct)
  case (1 n)
  then show ?case by simp
next
  case (2 e rest n)
  then show ?case by simp
next
  case (3 data rest n)
  then show ?case by auto
qed

text \<open>
  Claim C8. The loop polls again exactly while the status is non-terminal and stops at
  the first terminal one. After a run \<open>pre\<close> of non-terminal polls the loop is still
  polling, having made \<open>length pre\<close> polls. If the next poll has status
  \<^verbatim>\<open>completed\<close> the loop ends with that transcript after \<open>length pre + 1\<close> polls; if it
  has status \<^verbatim>\<open>error\<close> the loop ends at once by throwing the job's error, after
  \<open>length pre + 1\<close> polls, whatever polls would follow; a poll that itself throws ends
  it the same way.
\<close>

theorem pollLoop_stops_at_first_terminal:
  "list_all nonTerminal pre \<longrightarrow>
     pollLoop pre 0 = (StillPolling, length pre) \<and>
     (t_status data = ''completed'' \<longrightarrow>
        pollLoop (pre @ Inr data # post) 0 = (Finished (Inr data), length pre + 1)) \<and>
     (t_status data = ''error'' \<longrightarrow>
        pollLoop (pre @ Inr data # post) 0 =
          (Finished (Inl (Error (t_error data))), length pre + 1)) \<and>
     pollLoop (pre @ Inl e # post) 0 = (Finished (Inl e), length pre + 1)"
proof
  assume pre: "list_all nonTerminal pre"
  have "pollLoop (pre @ []) 0 = pollLoop [] (0 + length pre)"
    using pre by (rule pollLoop_skip)
  moreover have "pollLoop (pre @ Inr data # post) 0 = pollLoop (Inr data # post) (0 + length pre)"
    using pre by (rule pollLoop_skip)
  moreover have "pollLoop (pre @ Inl e # post) 0 = pollLoop (Inl e # post) (0 + length pre)"
    using pre by (rule pollLoop_skip)
  ultimately show "pollLoop pre 0 = (StillPolling, length pre) \<and>
     (t_status data = ''completed'' \<longrightarrow>
        pollLoop (pre @ Inr data # post) 0 = (Finished (Inr data), length pre + 1)) \<and>
     (t_status data = ''error'' \<longrightarrow>
        pollLoop (pre @ Inr data # post) 0 =
          (Finished (Inl (Error (t_error data))), length pre + 1)) \<and>
     pollLoop (pre @ Inl e # post) 0 = (Finished (Inl e), length pre + 1)"
    by simp
qed

text \<open>
  The statuses processing, processing, completed: three polls, the completed transcript,
  and the poll that would follow is never made. The statuses queued, error: two polls and
  the error thrown, the completed poll after it never made.
\<close>

theorem pollLoop_three_polls_witness:
  "pollLoop [Inr (pollWith ''processing''), Inr (pollWith ''processing''),
             Inr (pollWith ''completed''), Inr (pollWith ''queued'')] 0 =
     (Finished (Inr (pollWith ''completed'')), 3) \<and>
   pollLoop [Inr (pollWith ''queued''), Inr (pollWith ''error''), Inr (pollWith ''completed'')] 0 =
     (Finished (Inl (Error ''bad audio'')), 2)"
proof -
  have two: "list_all nonTerminal [Inr (pollWith ''processing''), Inr (pollWith ''processing'')]"
    by (simp add: nonTerminal_def pollWith_def)
  have one: "list_all nonTerminal [Inr (pollWith ''queued'')]"
    by (simp add: nonTerminal_def pollWith_def)
  have c: "t_status (pollWith ''completed'') = ''completed''"
    and e: "t_status (pollWith ''error'') = ''error''"
    and t: "t_error (pollWith ''error'') = ''bad audio''"
    by (simp_all add: pollWith_def)
  have first: "pollLoop ([Inr (pollWith ''processing''), Inr (pollWith ''processing'')] @
        Inr (pollWith ''completed'') # [Inr (pollWith ''queued'')]) 0 =
      (Finished (Inr (pollWith ''completed'')),
       length [Inr (pollWith ''processing''), Inr (pollWith ''processing'') :: exn + Transcript] + 1)"
    using pollLoop_stops_at_first_terminal
        [of "[Inr (pollWith ''processing''), Inr (pollWith ''processing'')]"
          "pollWith ''completed''" "[Inr (pollWith ''queued'')]" NetworkFailure]
      two c by blast
  have second: "pollLoop ([Inr (pollWith ''queued'')] @
        Inr (pollWith ''error'') # [Inr (pollWith ''completed'')]) 0 =
      (Finished (Inl (Error (t_error (pollWith ''error'')))),
       length [Inr (pollWith ''queued'') :: exn + Transcript] + 1)"
    using pollLoop_stops_at_first_terminal
        [of "[Inr (pollWith ''queued'')]" "pollWith ''error''" "[Inr (pollWith ''completed'')]"
          NetworkFailure]
      one e by blast
  from first have "pollLoop [Inr (pollWith ''processing''), Inr (pollWith ''processing''),
             Inr (pollWith ''completed''), Inr (pollWith ''queued'')] 0 =
     (Finished (Inr (pollWith ''completed'')), 3)"
    by simp
  moreover from second t have "pollLoop [Inr (pollWith ''queued''), Inr (pollWith ''error''),
      Inr (pollWith ''completed'')] 0 = (Finished (Inl (Error ''bad audio'')), 2)"
    by simp
  ultimately show ?thesis by blast
qed

section \<open>The entry point\<close>

lemma tryBody_cases:
  "tryBody remote = StillPolling \<or> (\<exists>e. tryBody remote = Finished (Inl e)) \<or>
   (\<exists>data. Inr data \<in> set (pollOutcomes remote) \<and> t_status data = ''completed'' \<and>
      tryBody remote = Finished (Inr (buildResult data)))"
  using pollLoop_cases [of "pollOutcomes remote" 0]
  by (auto simp: tryBody_def split: sum.splits run.splits)

lemma analyzeAudio_after_polls:
  assumes "uploadOutcome remote = Inr url" and "startOutcome remote = Inr jobId"
    and "list_all nonTerminal pre" and "pollOutcomes remote = pre @ rest"
  shows "analyzeAudio remote =
     (case fst (pollLoop rest (length pre)) of
        StillPolling \<Rightarrow> StillPolling
      | Finished (Inl e) \<Rightarrow> Finished None
      | Finished (Inr transcript) \<Rightarrow> Finished (Some (buildResult transcript)))"
proof -
  have "pollLoop (pre @ rest) 0 = pollLoop rest (0 + length pre)"
    using assms(3) by (rule pollLoop_skip)
  then show ?thesis
    using assms(1,2,4) by (simp add: analyzeAudio_def tryBody_def split: run.splits sum.splits)
qed

text \<open>
  Claim C1, as the code has it. \<^verbatim>\<open>analyzeAudio\<close> has no typed failure: its result is
  \<^verbatim>\<open>AnalysisResult | null\<close>. Whenever it returns, it returns either \<^verbatim>\<open>null\<close> or the
  complete result built from a poll whose status is \<^verbatim>\<open>completed\<close>; there is no partial
  and no default result. Every failure is caught and returned as \<^verbatim>\<open>null\<close>: a failed
  upload, a failed start, and, after any run of non-terminal polls, a poll that throws
  or a job in status \<^verbatim>\<open>error\<close>. After a run of non-terminal polls, a \<^verbatim>\<open>completed\<close> poll
  gives the complete result, and with no further poll the call is still polling.
\<close>

theorem analyzeAudio_result_or_null:
  "(analyzeAudio remote = StillPolling \<or> analyzeAudio remote = Finished None \<or>
    (\<exists>data. Inr data \<in> set (pollOutcomes remote) \<and> t_status data = ''completed'' \<and>
       analyzeAudio remote = Finished (Some (buildResult data)))) \<and>
   (uploadOutcome remote = Inl e \<longrightarrow> analyzeAudio remote = Finished None) \<and>
   (startOutcome remote = Inl e \<longrightarrow> analyzeAudio remote = Finished None) \<and>
   (uploadOutcome remote = Inr url \<and> startOutcome remote = Inr jobId \<and>
    list_all nonTerminal pre \<longrightarrow>
      (pollOutcomes remote = pre \<longrightarrow> analyzeAudio remote = StillPolling) \<and>
      (pollOutcomes remote = pre @ Inl e # post \<longrightarrow> analyzeAudio remote = Finished None) \<and>
      (pollOutcomes remote = pre @ Inr data # post \<and> t_status data = ''error'' \<longrightarrow>
         analyzeAudio remote = Finished None) \<and>
      (pollOutcomes remote = pre @ Inr data # post \<and> t_status data = ''completed'' \<longrightarrow>
         analyzeAudio remote = Finished (Some (buildResult data))))"
proof -
  have shape: "analyzeAudio remote = StillPolling \<or> analyzeAudio remote = Finished None \<or>
    (\<exists>data. Inr data \<in> set (pollOutcomes remote) \<and> t_status data = ''completed'' \<and>
       analyzeAudio remote = Finished (Some (buildResult data)))"
    using tryBody_cases [of remote] by (auto simp: analyzeAudio_def)
  have upload: "uploadOutcome remote = Inl e \<longrightarrow> analyzeAudio remote = Finished None"
    by (simp add: analyzeAudio_def tryBody_def)
  have start: "startOutcome remote = Inl e \<longrightarrow> analyzeAudio remote = Finished None"
    by (simp add: analyzeAudio_def tryBody_def split: sum.splits)
  have polls: "(pollOutcomes remote = pre \<longrightarrow> analyzeAudio remote = StillPolling) \<and>
      (pollOutcomes remote = pre @ Inl e # post \<longrightarrow> analyzeAudio remote = Finished None) \<and>
      (pollOutcomes remote = pre @ Inr data # post \<and> t_status data = ''error'' \<longrightarrow>
         analyzeAudio remote = Finished None) \<and>
      (pollOutcomes remote = pre @ Inr data # post \<and> t_status data = ''completed'' \<longrightarrow>
         analyzeAudio remote = Finished (Some (buildResult data)))"
    if ok: "uploadOutcome remote = Inr url" "startOutcome remote = Inr jobId"
      "list_all nonTerminal pre"
  proof -
    have "analyzeAudio remote = StillPolling" if "pollOutcomes remote = pre"
      using analyzeAudio_after_polls [OF ok, of "[]"] that by simp
    moreover have "analyzeAudio remote = Finished None"
      if "pollOutcomes remote = pre @ Inl e # post"
      using analyzeAudio_after_polls [OF ok that] by simp
    moreover have "analyzeAudio remote = Finished None"
      if "pollOutcomes remote = pre @ Inr data # post" "t_status data = ''error''"
      using analyzeAudio_after_polls [OF ok that(1)] that(2) by simp
    moreover have "analyzeAudio remote = Finished (Some (buildResult data))"
      if "pollOutcomes remote = pre @ Inr data # post" "t_status data = ''completed''"
      using analyzeAudio_after_polls [OF ok that(1)] that(2) by simp
    ultimately show ?thesis by blast
  qed
  from shape upload start polls show ?thesis by blast
qed

text \<open>A job that completes on its second poll, and a job that fails on its second poll.\<close>

theorem analyzeAudio_result_or_null_witness:
  "analyzeAudio (remoteWith [Inr (pollWith ''processing''), Inr (pollWith ''completed'')]) =
     Finished (Some (buildResult (pollWith ''completed''))) \<and>
   analyzeAudio (remoteWith [Inr (pollWith ''processing''), Inr (pollWith ''error'')]) =
     Finished None"
proof -
  have pre: "list_all nonTerminal [Inr (pollWith ''processing'')]"
    by (simp add: nonTerminal_def pollWith_def)
  have up: "uploadOutcome (remoteWith ps) = Inr (Some ''https://cdn/upload/1'')"
    and st: "startOutcome (remoteWith ps) = Inr (Some ''job-1'')"
    and po: "pollOutcomes (remoteWith ps) = ps" for ps
    by (simp_all add: remoteWith_def)
  have c: "t_status (pollWith ''completed'') = ''completed''"
    and e: "t_status (pollWith ''error'') = ''error''"
    by (simp_all add: pollWith_def)
  have "analyzeAudio (remoteWith [Inr (pollWith ''processing''), Inr (pollWith ''completed'')]) =
     Finished (Some (buildResult (pollWith ''completed'')))"
    using analyzeAudio_result_or_null
        [of "remoteWith [Inr (pollWith ''processing''), Inr (pollWith ''completed'')]"
          NetworkFailure "Some ''https://cdn/upload/1''" "Some ''job-1''"
          "[Inr (pollWith ''processing'')]" "[]" "pollWith ''completed''"]
      pre up st c
    by (simp add: po)
  moreover have "analyzeAudio (remoteWith [Inr (pollWith ''processing''), Inr (pollWith ''error'')]) =
     Finished None"
    using analyzeAudio_result_or_null
        [of "remoteWith [Inr (pollWith ''processing''), Inr (pollWith ''error'')]"
          NetworkFailure "Some ''https://cdn/upload/1''" "Some ''job-1''"
          "[Inr (pollWith ''processing'')]" "[]" "pollWith ''error''"]
      pre up st e
    by (simp add: po)
  ultimately show ?thesis by blast
qed

text \<open>
  Claim C1 as stated says that a job reaching the error status is reported as a typed
  failure and never as a null result. The \<^verbatim>\<open>catch\<close> block logs the error and returns
  \<^verbatim>\<open>null\<close>: for a job whose second poll has status \<^verbatim>\<open>error\<close> the value returned is
  \<^verbatim>\<open>null\<close>.
\<close>

theorem analyzeAudio_error_is_null_counterexample:
  "tryBody (remoteWith [Inr (pollWith ''processing''), Inr (pollWith ''error'')]) =
     Finished (Inl (Error ''bad audio'')) \<and>
   analyzeAudio (remoteWith [Inr (pollWith ''processing''), Inr (pollWith ''error'')]) =
     Finished None"
  by (simp add: analyzeAudio_def tryBody_def remoteWith_def pollWith_def)

section \<open>The analyzer: durations, rates and the empty transcript\<close>

lemma longPausesOf_Nil: "longPausesOf [] = []"
  by (simp add: longPausesOf_def longPausesLoop.simps [of "[]"])

lemma mostUsedFillers_Nil: "mostUsedFillers [] = []"
  by (simp add: mostUsedFillers_def fillerCounts_def Object_entries_def sortBy_def)

lemma getRepeatedWords_Nil: "getRepeatedWords [] = []"
  by (simp add: getRepeatedWords_def repeatedCounts_def Object_entries_def sortBy_def)

lemma analyzeTranscript_fields:
  "a_totalFillers (analyzeTranscript t) = length (fillersOf (wordsOf t))"
  "a_fillerRate (analyzeTranscript t) =
     js_divide (Math_round_jsnum (js_times (fillerRateOf t) (Finite 10))) (Finite 10)"
  "a_mostUsedFillers (analyzeTranscript t) = mostUsedFillers (fillersOf (wordsOf t))"
  "a_longPauses (analyzeTranscript t) = longPausesOf (wordsOf t)"
  "a_speakingPace (analyzeTranscript t) = Math_round_jsnum (speakingPaceOf t)"
  "a_confidenceScore (analyzeTranscript t) = Math_round (avgConfidence (wordsOf t) * 100)"
  "a_pronunciationIssues (analyzeTranscript t) = pronunciationIssues (wordsOf t)"
  "a_fillers (analyzeTranscript t) = fillersOf (wordsOf t)"
  by (simp_all add: analyzeTranscript_def Let_def)

text \<open>
  The duration in seconds is never zero. Divided by 60 it is a zero when it underflows,
  and the exact quotient when it stays in the range of a double.
\<close>

lemma totalDurationSeconds_nonzero: "totalDurationSeconds t \<noteq> 0"
  by (simp add: totalDurationSeconds_def split: option.splits)

lemma totalDurationSeconds_positive: "durationNotNegative t \<Longrightarrow> 0 < totalDurationSeconds t"
  by (auto simp: durationNotNegative_def totalDurationSeconds_def split: option.splits)

lemma totalDurationMinutes_toDouble:
  "totalDurationMinutes t = toDouble (totalDurationSeconds t / 60)"
  using totalDurationSeconds_nonzero [of t]
  by (simp add: totalDurationMinutes_def js_divide_def)

lemma totalDurationMinutes_in_range:
  "durationInRange t \<Longrightarrow> totalDurationMinutes t = Finite (totalDurationSeconds t / 60)"
  by (simp add: totalDurationMinutes_toDouble toDouble_def durationInRange_def)

lemma toDouble_positive:
  "0 < x \<Longrightarrow> notNegative (toDouble x) \<and> toDouble x \<noteq> NegZero"
  by (simp add: toDouble_def notNegative_def js_less_def signedZero_def signedInfinity_def)


lemma count_over_minutes:
  assumes "0 < m"
  shows "js_divide (Finite (of_nat n)) (Finite m) =
     (if n = 0 then Finite 0 else toDouble (of_nat n / m))"
  using assms by (simp add: js_divide_def signedZero_def)

lemma count_over_minutes_notNegative:
  assumes "0 < m"
  shows "notNegative (js_divide (Finite (of_nat n)) (Finite m)) \<and>
     js_divide (Finite (of_nat n)) (Finite m) \<noteq> NegZero"
proof (cases "n = 0")
  case True
  then show ?thesis
    unfolding count_over_minutes [OF assms] by (simp add: notNegative_def js_less_def)
next
  case False
  then have "0 < (of_nat n :: real) / m" using assms by simp
  then show ?thesis
    unfolding count_over_minutes [OF assms]
    using False toDouble_positive [of "of_nat n / m"] by simp
qed

lemma times_ten_notNegative:
  assumes "notNegative x \<and> x \<noteq> NegZero"
  shows "notNegative (js_times x (Finite 10)) \<and> js_times x (Finite 10) \<noteq> NegZero"
proof (cases x)
  case (Finite q)
  then have q: "0 \<le> q" using assms by (simp add: notNegative_def js_less_def)
  show ?thesis
  proof (cases "q = 0")
    case True
    then show ?thesis
      using Finite by (simp add: js_times_def signedZero_def notNegative_def js_less_def)
  next
    case False
    then have "0 < q * 10" using q by simp
    then show ?thesis
      using Finite False toDouble_positive [of "q * 10"] by (simp add: js_times_def)
  qed
next
  case Infinity
  then show ?thesis
    by (simp add: js_times_def signedInfinity_def notNegative_def js_less_def)
qed (use assms in \<open>simp_all add: notNegative_def js_less_def\<close>)

lemma Math_round_jsnum_notNegative:
  assumes "notNegative x \<and> x \<noteq> NegZero"
  shows "notNegative (Math_round_jsnum x) \<and> Math_round_jsnum x \<noteq> NegZero"
proof (cases x)
  case (Finite q)
  then have "0 \<le> q" using assms by (simp add: notNegative_def js_less_def)
  then show ?thesis
    using Finite by (simp add: notNegative_def js_less_def Math_round_def)
qed (use assms in \<open>simp_all add: notNegative_def js_less_def\<close>)

lemma over_ten_notNegative:
  assumes "notNegative x \<and> x \<noteq> NegZero"
  shows "notNegative (js_divide x (Finite 10))"
proof (cases x)
  case (Finite q)
  then have q: "0 \<le> q" using assms by (simp add: notNegative_def js_less_def)
  show ?thesis
  proof (cases "q = 0")
    case True
    then show ?thesis
      using Finite by (simp add: js_divide_def signedZero_def notNegative_def js_less_def)
  next
    case False
    then have "0 < q / 10" using q by simp
    then show ?thesis
      using Finite False toDouble_positive [of "q / 10"] by (simp add: js_divide_def)
  qed
next
  case Infinity
  then show ?thesis
    by (simp add: js_divide_def signedInfinity_def notNegative_def js_less_def)
qed (use assms in \<open>simp_all add: notNegative_def js_less_def\<close>)

lemma rates_in_range:
  assumes "durationNotNegative t" and "durationInRange t"
  shows "fillerRateOf t =
      (if fillersOf (wordsOf t) = [] then Finite 0
       else toDouble (of_nat (length (fillersOf (wordsOf t))) / (totalDurationSeconds t / 60)))"
    and "speakingPaceOf t =
      (if nonFillerWords (wordsOf t) = [] then Finite 0
       else toDouble (of_nat (length (nonFillerWords (wordsOf t))) / (totalDurationSeconds t / 60)))"
proof -
  have m: "0 < totalDurationSeconds t / 60"
    using totalDurationSeconds_positive [OF assms(1)] by simp
  show "fillerRateOf t =
      (if fillersOf (wordsOf t) = [] then Finite 0
       else toDouble (of_nat (length (fillersOf (wordsOf t))) / (totalDurationSeconds t / 60)))"
    unfolding fillerRateOf_def totalDurationMinutes_in_range [OF assms(2)]
      count_over_minutes [OF m] by simp
  show "speakingPaceOf t =
      (if nonFillerWords (wordsOf t) = [] then Finite 0
       else toDouble (of_nat (length (nonFillerWords (wordsOf t))) / (totalDurationSeconds t / 60)))"
    unfolding speakingPaceOf_def totalDurationMinutes_in_range [OF assms(2)]
      count_over_minutes [OF m] by simp
qed

lemma rates_notNegative:
  assumes "durationNotNegative t" and "durationInRange t"
  shows "notNegative (fillerRateOf t) \<and> fillerRateOf t \<noteq> NegZero"
    and "notNegative (speakingPaceOf t) \<and> speakingPaceOf t \<noteq> NegZero"
proof -
  have m: "0 < totalDurationSeconds t / 60"
    using totalDurationSeconds_positive [OF assms(1)] by simp
  show "notNegative (fillerRateOf t) \<and> fillerRateOf t \<noteq> NegZero"
    unfolding fillerRateOf_def totalDurationMinutes_in_range [OF assms(2)]
    by (rule count_over_minutes_notNegative [OF m])
  show "notNegative (speakingPaceOf t) \<and> speakingPaceOf t \<noteq> NegZero"
    unfolding speakingPaceOf_def totalDurationMinutes_in_range [OF assms(2)]
    by (rule count_over_minutes_notNegative [OF m])
qed

lemma reported_rates_notNegative:
  assumes "durationNotNegative t" and "durationInRange t"
  shows "notNegative (a_fillerRate (analyzeTranscript t))"
    and "notNegative (a_speakingPace (analyzeTranscript t))"
proof -
  show "notNegative (a_fillerRate (analyzeTranscript t))"
    unfolding analyzeTranscript_fields
    by (intro over_ten_notNegative Math_round_jsnum_notNegative times_ten_notNegative
        rates_notNegative [OF assms])
  show "notNegative (a_speakingPace (analyzeTranscript t))"
    unfolding analyzeTranscript_fields
    using Math_round_jsnum_notNegative [OF rates_notNegative(2) [OF assms]] by simp
qed

lemma reported_rates_no_words:
  assumes "durationNotNegative t" and "durationInRange t" and "wordsOf t = []"
  shows "a_fillerRate (analyzeTranscript t) = Finite 0"
    and "a_speakingPace (analyzeTranscript t) = Finite 0"
  using assms(3)
  by (simp_all add: analyzeTranscript_fields rates_in_range [OF assms(1,2)] fillersOf_def
      nonFillerWords_def js_times_def js_divide_def signedZero_def Math_round_def)

lemma analyzeTranscript_no_words:
  assumes "wordsOf t = []"
  shows "a_confidenceScore (analyzeTranscript t) = 0" "a_totalFillers (analyzeTranscript t) = 0"
    "a_fillers (analyzeTranscript t) = []" "a_mostUsedFillers (analyzeTranscript t) = []"
    "a_longPauses (analyzeTranscript t) = []" "a_pronunciationIssues (analyzeTranscript t) = []"
  using assms
  by (simp_all add: analyzeTranscript_fields fillersOf_def nonFillerWords_def avgConfidence_def
      Math_round_def longPausesOf_Nil mostUsedFillers_Nil pronunciationIssues_def)





text \<open>
  Claim C3, as the code has it. For every transcript whose duration is absent or not
  negative, and whose duration divided by 60 stays in the range of a double, the filler
  rate and the speaking pace are not negative, before and after rounding, and with no
  words (an absent or empty word list) both reported rates are 0. A transcript with no
  words, whatever its duration, has the confidence score 0, the filler count 0 and empty
  lists of fillers, top fillers, pauses, pronunciation flags and repeated words. The
  analyzer is a total function: it has no failing branch.
\<close>

theorem rates_nonnegative_and_empty_transcript:
  "(durationNotNegative t \<and> durationInRange t \<longrightarrow>
      notNegative (fillerRateOf t) \<and> notNegative (speakingPaceOf t) \<and>
      notNegative (a_fillerRate (analyzeTranscript t)) \<and>
      notNegative (a_speakingPace (analyzeTranscript t))) \<and>
   (durationNotNegative t \<and> durationInRange t \<and> wordsOf t = [] \<longrightarrow>
      a_fillerRate (analyzeTranscript t) = Finite 0 \<and>
      a_speakingPace (analyzeTranscript t) = Finite 0) \<and>
   (wordsOf t = [] \<longrightarrow>
      a_confidenceScore (analyzeTranscript t) = 0 \<and> a_totalFillers (analyzeTranscript t) = 0 \<and>
      a_fillers (analyzeTranscript t) = [] \<and> a_mostUsedFillers (analyzeTranscript t) = [] \<and>
      a_longPauses (analyzeTranscript t) = [] \<and> a_pronunciationIssues (analyzeTranscript t) = [] \<and>
      getRepeatedWords (wordsOf t) = [])"
  using rates_notNegative [of t] reported_rates_notNegative [of t] reported_rates_no_words [of t]
    analyzeTranscript_no_words [of t] getRepeatedWords_Nil
  by simp

text \<open>
  A transcript with no word list and 60 seconds of audio, and one with a single filler
  in 30 seconds.
\<close>

theorem empty_transcript_witness:
  "a_fillerRate (analyzeTranscript (transcriptOf None (Some 60))) = Finite 0 \<and>
   a_speakingPace (analyzeTranscript (transcriptOf None (Some 60))) = Finite 0 \<and>
   a_confidenceScore (analyzeTranscript (transcriptOf None (Some 60))) = 0 \<and>
   a_fillers (analyzeTranscript (transcriptOf None (Some 60))) = [] \<and>
   a_longPauses (analyzeTranscript (transcriptOf None (Some 60))) = [] \<and>
   a_mostUsedFillers (analyzeTranscript (transcriptOf None (Some 60))) = [] \<and>
   getRepeatedWords (wordsOf (transcriptOf None (Some 60))) = [] \<and>
   notNegative (a_fillerRate (analyzeTranscript (transcriptOf (Some [fillerWord ''um'' 0 1 None]) (Some 30)))) \<and>
   notNegative (a_speakingPace (analyzeTranscript (transcriptOf (Some [fillerWord ''um'' 0 1 None]) (Some 30))))"
proof -
  have w: "wordsOf (transcriptOf None (Some 60)) = []"
    by (simp add: wordsOf_def transcriptOf_def)
  have d: "durationNotNegative (transcriptOf ws (Some 60))"
    "durationNotNegative (transcriptOf ws (Some 30))" for ws
    by (simp_all add: durationNotNegative_def transcriptOf_def)
  have r: "durationInRange (transcriptOf ws (Some 60))"
    "durationInRange (transcriptOf ws (Some 30))" for ws
    by (simp_all add: durationInRange_def totalDurationSeconds_def transcriptOf_def)
  show ?thesis
    using rates_nonnegative_and_empty_transcript [of "transcriptOf None (Some 60)"]
      rates_nonnegative_and_empty_transcript
        [of "transcriptOf (Some [fillerWord ''um'' 0 1 None]) (Some 30)"] w d r
    by blast
qed

text \<open>
  Claim C3 as stated holds for every transcript. With \<^verbatim>\<open>audio_duration = -60\<close> and one
  filler the reported filler rate is \<open>-1\<close>. With no words and a duration of \<open>2^-1074\<close>
  seconds the divisor underflows to 0 and both reported rates are NaN, not 0.
\<close>

theorem rates_counterexample:
  "a_fillerRate (analyzeTranscript (transcriptOf (Some [fillerWord ''um'' 0 1 None]) (Some (- 60)))) =
     Finite (- 1) \<and>
   \<not> notNegative
       (a_fillerRate (analyzeTranscript (transcriptOf (Some [fillerWord ''um'' 0 1 None]) (Some (- 60))))) \<and>
   a_fillerRate (analyzeTranscript (transcriptOf None (Some (1 / 2 ^ 1074)))) = NaN \<and>
   a_speakingPace (analyzeTranscript (transcriptOf None (Some (1 / 2 ^ 1074)))) = NaN"
  by (simp add: analyzeTranscript_fields totalDurationMinutes_def totalDurationSeconds_def
      fillerRateOf_def speakingPaceOf_def fillersOf_def nonFillerWords_def wordsOf_def
      transcriptOf_def fillerWord_def isDisfluency_def js_divide_def js_times_def toDouble_def
      signedZero_def signedInfinity_def Math_round_def notNegative_def js_less_def)

section \<open>Long pauses\<close>

lemma pauseStep_eq:
  "pauseStep p c acc = acc @ (case pauseBetween p c of None \<Rightarrow> [] | Some x \<Rightarrow> [x])"
  by (simp add: pauseStep_def pauseBetween_def Let_def split: option.splits)

lemma longPausesLoop_eq:
  "longPausesLoop ws i acc =
     acc @ List.map_filter (\<lambda>j. pauseBetween (ws ! (j - 1)) (ws ! j)) [i..<length ws]"
proof (induction ws i acc rule: longPausesLoop.induct)
  case (1 ws i acc)
  show ?case
  proof (cases "i < length ws")
    case True
    then have "longPausesLoop ws i acc =
        longPausesLoop ws (i + 1) (pauseStep (ws ! (i - 1)) (ws ! i) acc)"
      by (simp add: longPausesLoop.simps [of ws i])
    also have "\<dots> = pauseStep (ws ! (i - 1)) (ws ! i) acc @
        List.map_filter (\<lambda>j. pauseBetween (ws ! (j - 1)) (ws ! j)) [i + 1..<length ws]"
      using "1.IH" [OF True] .
    also have "\<dots> = acc @
        List.map_filter (\<lambda>j. pauseBetween (ws ! (j - 1)) (ws ! j)) [i..<length ws]"
      using True
      by (simp add: pauseStep_eq upt_conv_Cons [of i] split: option.splits)
    finally show ?thesis .
  next
    case False
    then show ?thesis
      by (simp add: longPausesLoop.simps [of ws i])
  qed
qed

text \<open>
  Claim C4. The loop visits the adjacent pairs \<open>words[i - 1]\<close>, \<open>words[i]\<close> in the
  order of the array, for \<open>i\<close> from 1, and emits for each pair the record
  \<open>{start, end, duration}\<close> exactly when the gap \<open>words[i].start - words[i - 1].end\<close> is
  strictly greater than 2.5 (both times being numbers): the list of pauses is the list of
  these records, one per such pair, in order. A word ending at 1 followed by a word
  starting at 4 gives exactly one pause, of duration 3; a gap of 2.4 gives no pause.
\<close>

theorem longPauses_exactly_the_long_gaps:
  "longPausesOf ws =
     List.map_filter (\<lambda>i. pauseBetween (ws ! (i - 1)) (ws ! i)) [1..<length ws] \<and>
   (w_end p = Some e \<and> w_start c = Some s \<longrightarrow>
      pauseBetween p c =
        (if s - e > 25 / 10 then Some \<lparr>p_start = e, p_end = s, p_duration = s - e\<rparr> else None)) \<and>
   (w_end p = Some 1 \<and> w_start c = Some 4 \<longrightarrow>
      longPausesOf [p, c] = [\<lparr>p_start = 1, p_end = 4, p_duration = 3\<rparr>]) \<and>
   (w_end p = Some e \<and> w_start c = Some (e + 24 / 10) \<longrightarrow> longPausesOf [p, c] = [])"
proof -
  have loop: "longPausesOf ws =
      List.map_filter (\<lambda>i. pauseBetween (ws ! (i - 1)) (ws ! i)) [1..<length ws]" for ws
    by (simp add: longPausesOf_def longPausesLoop_eq)
  have two: "longPausesOf [p, c] = (case pauseBetween p c of None \<Rightarrow> [] | Some x \<Rightarrow> [x])"
    by (simp add: loop upt_conv_Cons split: option.splits)
  have "w_end p = Some e \<and> w_start c = Some s \<longrightarrow>
      pauseBetween p c =
        (if s - e > 25 / 10 then Some \<lparr>p_start = e, p_end = s, p_duration = s - e\<rparr> else None)"
    by (simp add: pauseBetween_def)
  moreover have "w_end p = Some 1 \<and> w_start c = Some 4 \<longrightarrow>
      longPausesOf [p, c] = [\<lparr>p_start = 1, p_end = 4, p_duration = 3\<rparr>]"
    by (simp add: two pauseBetween_def)
  moreover have "w_end p = Some e \<and> w_start c = Some (e + 24 / 10) \<longrightarrow> longPausesOf [p, c] = []"
    by (simp add: two pauseBetween_def)
  ultimately show ?thesis using loop [of ws] by blast
qed

text \<open>Three words: a gap of 3 seconds, then a gap of 2.4 seconds.\<close>

theorem longPauses_witness:
  "longPausesOf [spokenWord ''so'' 0 1 None, spokenWord ''then'' 4 5 None,
                 spokenWord ''we'' (74 / 10) 8 None] =
     [\<lparr>p_start = 1, p_end = 4, p_duration = 3\<rparr>] \<and>
   longPausesOf [spokenWord ''so'' 0 1 None, spokenWord ''then'' 4 5 None] =
     [\<lparr>p_start = 1, p_end = 4, p_duration = 3\<rparr>] \<and>
   longPausesOf [spokenWord ''then'' 4 5 None, spokenWord ''we'' (74 / 10) 8 None] = []"
proof -
  let ?a = "spokenWord ''so'' 0 1 None" and ?b = "spokenWord ''then'' 4 5 None"
    and ?c = "spokenWord ''we'' (74 / 10) 8 None"
  have ends: "w_end ?a = Some 1" "w_start ?b = Some 4" "w_end ?b = Some 5"
    "w_start ?c = Some (5 + 24 / 10)"
    by (simp_all add: spokenWord_def)
  have idx: "[1..<length [?a, ?b, ?c]] = [1, 2]"
    by (simp add: upt_conv_Cons)
  have ab: "pauseBetween ?a ?b = Some \<lparr>p_start = 1, p_end = 4, p_duration = 3\<rparr>"
    using longPauses_exactly_the_long_gaps [of "[]" ?a 1 ?b 4] ends by simp
  have bc: "pauseBetween ?b ?c = None"
    using longPauses_exactly_the_long_gaps [of "[]" ?b 5 ?c "5 + 24 / 10"] ends by simp
  have "longPausesOf [?a, ?b, ?c] = [\<lparr>p_start = 1, p_end = 4, p_duration = 3\<rparr>]"
    using longPauses_exactly_the_long_gaps [of "[?a, ?b, ?c]" ?a 1 ?b 4] ab bc
    by (simp add: idx)
  moreover have "longPausesOf [?a, ?b] = [\<lparr>p_start = 1, p_end = 4, p_duration = 3\<rparr>]"
    using longPauses_exactly_the_long_gaps [of "[]" ?a 1 ?b 4] ends by blast
  moreover have "longPausesOf [?b, ?c] = []"
    using longPauses_exactly_the_long_gaps [of "[]" ?b 5 ?c 4] ends by blast
  ultimately show ?thesis by blast
qed

section \<open>The confidence score\<close>

lemma foldl_plus_sum_list:
  "foldl (\<lambda>sum w. sum + f w) a xs = a + sum_list (map f xs)" for a :: real
  by (induction xs arbitrary: a) simp_all

lemma avgConfidence_mean:
  "avgConfidence ws = arithmeticMean (map confidenceOrZero (nonFillerWords ws))"
  by (simp add: avgConfidence_def arithmeticMean_def foldl_plus_sum_list Let_def)

lemma confidenceOrZero_the:
  "list_all confidenceInUnit ws \<Longrightarrow> map confidenceOrZero ws = map (\<lambda>w. the (w_confidence w)) ws"
  by (induction ws) (auto simp: confidenceInUnit_def confidenceOrZero_def split: option.splits)

lemma sum_list_unit_bounds:
  "list_all confidenceInUnit ws \<Longrightarrow>
     0 \<le> sum_list (map confidenceOrZero ws) \<and>
     sum_list (map confidenceOrZero ws) \<le> of_nat (length ws)"
  by (induction ws) (auto simp: confidenceInUnit_def confidenceOrZero_def split: option.splits)

lemma mean_unit_bounds:
  assumes "list_all confidenceInUnit ws"
  shows "0 \<le> arithmeticMean (map confidenceOrZero ws)"
    and "arithmeticMean (map confidenceOrZero ws) \<le> 1"
proof -
  from sum_list_unit_bounds [OF assms]
  have s: "0 \<le> sum_list (map confidenceOrZero ws)"
    "sum_list (map confidenceOrZero ws) \<le> of_nat (length ws)" by simp_all
  show "0 \<le> arithmeticMean (map confidenceOrZero ws)"
    using s(1) by (simp add: arithmeticMean_def)
  show "arithmeticMean (map confidenceOrZero ws) \<le> 1"
  proof (cases "ws = []")
    case True
    then show ?thesis by (simp add: arithmeticMean_def)
  next
    case False
    then have "0 < (of_nat (length ws) :: real)" by simp
    then show ?thesis
      using s(2) False by (simp add: arithmeticMean_def divide_le_eq)
  qed
qed

lemma Math_round_percent:
  assumes "0 \<le> x" and "x \<le> 1"
  shows "\<exists>k::int. Math_round (x * 100) = of_int k \<and> 0 \<le> k \<and> k \<le> 100"
proof -
  have "0 \<le> \<lfloor>x * 100 + 1 / 2\<rfloor>" using assms(1) by simp
  moreover have "\<lfloor>x * 100 + 1 / 2\<rfloor> \<le> 100"
  proof -
    have "x * 100 + 1 / 2 < 101" using assms(2) by simp
    then have "\<lfloor>x * 100 + 1 / 2\<rfloor> < 101" by (simp add: floor_less_iff)
    then show ?thesis by simp
  qed
  ultimately show ?thesis by (auto simp: Math_round_def)
qed

lemma arithmeticMean_times_length:
  "arithmeticMean xs * of_nat (length xs) = sum_list xs"
  by (simp add: arithmeticMean_def)

text \<open>
  Claim C5. When every spoken (non-disfluency) word has a confidence between 0 and 1,
  the average confidence is the arithmetic mean of the confidences of the spoken words
  only, and the reported score is that mean times 100 rounded to the nearest integer, an
  integer from 0 to 100. With no spoken word the average and the score are 0. For one
  spoken word of confidence 0.9 and one filler of confidence 0.1 the score is 90.
\<close>

theorem confidenceScore_is_mean_of_spoken:
  "(list_all confidenceInUnit (nonFillerWords (wordsOf t)) \<longrightarrow>
      avgConfidence (wordsOf t) =
        arithmeticMean (map (\<lambda>w. the (w_confidence w)) (nonFillerWords (wordsOf t))) \<and>
      a_confidenceScore (analyzeTranscript t) =
        Math_round
          (arithmeticMean (map (\<lambda>w. the (w_confidence w)) (nonFillerWords (wordsOf t))) * 100) \<and>
      (\<exists>k::int. a_confidenceScore (analyzeTranscript t) = of_int k \<and> 0 \<le> k \<and> k \<le> 100)) \<and>
   (nonFillerWords (wordsOf t) = [] \<longrightarrow>
      avgConfidence (wordsOf t) = 0 \<and> a_confidenceScore (analyzeTranscript t) = 0)"
proof -
  let ?spoken = "nonFillerWords (wordsOf t)"
  have none: "avgConfidence (wordsOf t) = 0 \<and> a_confidenceScore (analyzeTranscript t) = 0"
    if "?spoken = []"
    using that by (simp add: analyzeTranscript_fields avgConfidence_mean arithmeticMean_def
        Math_round_def)
  have some: "avgConfidence (wordsOf t) = arithmeticMean (map (\<lambda>w. the (w_confidence w)) ?spoken) \<and>
      a_confidenceScore (analyzeTranscript t) =
        Math_round (arithmeticMean (map (\<lambda>w. the (w_confidence w)) ?spoken) * 100) \<and>
      (\<exists>k::int. a_confidenceScore (analyzeTranscript t) = of_int k \<and> 0 \<le> k \<and> k \<le> 100)"
    if ok: "list_all confidenceInUnit ?spoken"
  proof -
    have avg: "avgConfidence (wordsOf t) =
        arithmeticMean (map (\<lambda>w. the (w_confidence w)) ?spoken)"
      by (simp add: avgConfidence_mean confidenceOrZero_the [OF ok])
    have "0 \<le> avgConfidence (wordsOf t)" and "avgConfidence (wordsOf t) \<le> 1"
      using mean_unit_bounds [OF ok] by (simp_all add: avgConfidence_mean)
    then have "\<exists>k::int. Math_round (avgConfidence (wordsOf t) * 100) = of_int k \<and> 0 \<le> k \<and> k \<le> 100"
      by (rule Math_round_percent)
    then show ?thesis
      using avg by (simp add: analyzeTranscript_fields)
  qed
  from none some show ?thesis by blast
qed

text \<open>One spoken word of confidence 0.9 and one filler of confidence 0.1: the score is 90.\<close>

theorem confidenceScore_ninety_witness:
  "a_confidenceScore
     (analyzeTranscript
        (transcriptOf (Some [spokenWord ''hello'' 0 1 (Some (9 / 10)),
                             fillerWord ''um'' 1 2 (Some (1 / 10))]) (Some 60))) = 90"
proof -
  let ?t = "transcriptOf (Some [spokenWord ''hello'' 0 1 (Some (9 / 10)),
                                fillerWord ''um'' 1 2 (Some (1 / 10))]) (Some 60)"
  have spoken: "nonFillerWords (wordsOf ?t) = [spokenWord ''hello'' 0 1 (Some (9 / 10))]"
    by (simp add: nonFillerWords_def wordsOf_def transcriptOf_def spokenWord_def fillerWord_def
        isDisfluency_def)
  have ok: "list_all confidenceInUnit (nonFillerWords (wordsOf ?t))"
    unfolding spoken by (simp add: confidenceInUnit_def spokenWord_def)
  have "a_confidenceScore (analyzeTranscript ?t) =
      Math_round (arithmeticMean (map (\<lambda>w. the (w_confidence w)) (nonFillerWords (wordsOf ?t))) * 100)"
    using confidenceScore_is_mean_of_spoken [of ?t] ok by blast
  also have "\<dots> = 90"
    unfolding spoken by (simp add: arithmeticMean_def spokenWord_def Math_round_def)
  finally show ?thesis .
qed

text \<open>
  Claim C10. A non-disfluency word whose confidence is absent is never flagged
  (\<^verbatim>\<open>confidence ?? 1\<close> is not below 0.6): with or without it the pronunciation flags
  are the same. It is a spoken word, so it counts in the divisor of the average, and it
  adds 0 to the sum (\<^verbatim>\<open>confidence || 0\<close>): the average over the words with it, times
  the number of spoken words plus one, equals the average without it times the number of
  spoken words. So for some inputs adding such a word lowers the score and produces no
  flag.
\<close>

theorem absent_confidence_asymmetry:
  "(w_confidence w = None \<and> \<not> isDisfluency w \<longrightarrow>
      \<not> lowConfidence w \<and>
      pronunciationIssues (xs @ w # ys) = pronunciationIssues (xs @ ys) \<and>
      nonFillerWords (xs @ w # ys) = nonFillerWords xs @ w # nonFillerWords ys \<and>
      confidenceOrZero w = 0 \<and>
      avgConfidence (xs @ w # ys) * (of_nat (length (nonFillerWords (xs @ ys))) + 1) =
        avgConfidence (xs @ ys) * of_nat (length (nonFillerWords (xs @ ys)))) \<and>
   (\<exists>ws v. w_confidence v = None \<and> \<not> isDisfluency v \<and>
      a_confidenceScore (analyzeTranscript (t\<lparr>t_words := Some (ws @ [v])\<rparr>)) <
        a_confidenceScore (analyzeTranscript (t\<lparr>t_words := Some ws\<rparr>)) \<and>
      a_pronunciationIssues (analyzeTranscript (t\<lparr>t_words := Some (ws @ [v])\<rparr>)) = [])"
proof -
  have general: "\<not> lowConfidence w \<and>
      pronunciationIssues (xs @ w # ys) = pronunciationIssues (xs @ ys) \<and>
      nonFillerWords (xs @ w # ys) = nonFillerWords xs @ w # nonFillerWords ys \<and>
      confidenceOrZero w = 0 \<and>
      avgConfidence (xs @ w # ys) * (of_nat (length (nonFillerWords (xs @ ys))) + 1) =
        avgConfidence (xs @ ys) * of_nat (length (nonFillerWords (xs @ ys)))"
    if absent: "w_confidence w = None" and spoken: "\<not> isDisfluency w"
  proof -
    have low: "\<not> lowConfidence w"
      using absent by (simp add: lowConfidence_def)
    have flags: "pronunciationIssues (xs @ w # ys) = pronunciationIssues (xs @ ys)"
      using low by (simp add: pronunciationIssues_def)
    have nf: "nonFillerWords (xs @ w # ys) = nonFillerWords xs @ w # nonFillerWords ys"
      using spoken by (simp add: nonFillerWords_def)
    have zero: "confidenceOrZero w = 0"
      using absent by (simp add: confidenceOrZero_def)
    have nf': "nonFillerWords (xs @ ys) = nonFillerWords xs @ nonFillerWords ys"
      by (simp add: nonFillerWords_def)
    have "avgConfidence (xs @ w # ys) * of_nat (length (nonFillerWords (xs @ w # ys))) =
        sum_list (map confidenceOrZero (nonFillerWords (xs @ w # ys)))"
      unfolding avgConfidence_mean using arithmeticMean_times_length
      by (metis length_map)
    moreover have "avgConfidence (xs @ ys) * of_nat (length (nonFillerWords (xs @ ys))) =
        sum_list (map confidenceOrZero (nonFillerWords (xs @ ys)))"
      unfolding avgConfidence_mean using arithmeticMean_times_length
      by (metis length_map)
    moreover have "sum_list (map confidenceOrZero (nonFillerWords (xs @ w # ys))) =
        sum_list (map confidenceOrZero (nonFillerWords (xs @ ys)))"
      by (simp add: nf nf' zero)
    moreover have "(of_nat (length (nonFillerWords (xs @ w # ys))) :: real) =
        of_nat (length (nonFillerWords (xs @ ys))) + 1"
      by (simp add: nf nf')
    ultimately have "avgConfidence (xs @ w # ys) * (of_nat (length (nonFillerWords (xs @ ys))) + 1) =
        avgConfidence (xs @ ys) * of_nat (length (nonFillerWords (xs @ ys)))"
      by simp
    with low flags nf zero show ?thesis by blast
  qed
  let ?a = "spokenWord ''hello'' 0 1 (Some (9 / 10))"
  let ?v = "spokenWord ''there'' 1 2 None"
  have v: "w_confidence ?v = None \<and> \<not> isDisfluency ?v"
    by (simp add: spokenWord_def isDisfluency_def)
  have words: "wordsOf (t\<lparr>t_words := Some ws\<rparr>) = ws" for ws
    by (simp add: wordsOf_def)
  have before: "a_confidenceScore (analyzeTranscript (t\<lparr>t_words := Some [?a]\<rparr>)) = 90"
    by (simp add: analyzeTranscript_fields words avgConfidence_mean nonFillerWords_def
        isDisfluency_def spokenWord_def arithmeticMean_def confidenceOrZero_def Math_round_def)
  have after: "a_confidenceScore (analyzeTranscript (t\<lparr>t_words := Some ([?a] @ [?v])\<rparr>)) = 45"
    by (simp add: analyzeTranscript_fields words avgConfidence_mean nonFillerWords_def
        isDisfluency_def spokenWord_def arithmeticMean_def confidenceOrZero_def Math_round_def)
  have noflag: "a_pronunciationIssues (analyzeTranscript (t\<lparr>t_words := Some ([?a] @ [?v])\<rparr>)) = []"
    by (simp add: analyzeTranscript_fields words pronunciationIssues_def lowConfidence_def
        spokenWord_def)
  have "\<exists>ws v. w_confidence v = None \<and> \<not> isDisfluency v \<and>
      a_confidenceScore (analyzeTranscript (t\<lparr>t_words := Some (ws @ [v])\<rparr>)) <
        a_confidenceScore (analyzeTranscript (t\<lparr>t_words := Some ws\<rparr>)) \<and>
      a_pronunciationIssues (analyzeTranscript (t\<lparr>t_words := Some (ws @ [v])\<rparr>)) = []"
    using v before after noflag
    by (intro exI [of _ "[?a]"] exI [of _ ?v]) simp
  with general show ?thesis by blast
qed

text \<open>
  A word of confidence 0.9 followed by a word with no confidence: no new flag, and the
  average is halved.
\<close>

theorem absent_confidence_witness:
  "\<not> lowConfidence (spokenWord ''there'' 1 2 None) \<and>
   pronunciationIssues [spokenWord ''hello'' 0 1 (Some (9 / 10)), spokenWord ''there'' 1 2 None] =
     pronunciationIssues [spokenWord ''hello'' 0 1 (Some (9 / 10))] \<and>
   avgConfidence [spokenWord ''hello'' 0 1 (Some (9 / 10)), spokenWord ''there'' 1 2 None] * 2 =
     avgConfidence [spokenWord ''hello'' 0 1 (Some (9 / 10))]"
proof -
  let ?a = "spokenWord ''hello'' 0 1 (Some (9 / 10))"
  let ?v = "spokenWord ''there'' 1 2 None"
  have v: "w_confidence ?v = None \<and> \<not> isDisfluency ?v"
    by (simp add: spokenWord_def isDisfluency_def)
  have n: "length (nonFillerWords ([?a] @ [])) = 1"
    by (simp add: nonFillerWords_def spokenWord_def isDisfluency_def)
  have "\<not> lowConfidence ?v \<and>
      pronunciationIssues ([?a] @ ?v # []) = pronunciationIssues ([?a] @ []) \<and>
      avgConfidence ([?a] @ ?v # []) * (of_nat (length (nonFillerWords ([?a] @ []))) + 1) =
        avgConfidence ([?a] @ []) * of_nat (length (nonFillerWords ([?a] @ [])))"
    using absent_confidence_asymmetry [of ?v "[?a]" "[]"] v by blast
  then show ?thesis
    unfolding n by simp
qed

section \<open>Counting objects and the frequency tables\<close>

text \<open>
  As long as no key is \<^verbatim>\<open>constructor\<close> or \<^verbatim>\<open>__proto__\<close>, counting a list of keys in
  a plain object builds the frequency table of the keys: the keys in first-seen order,
  each with its number of occurrences.
\<close>

lemma uniqueInOrder_snoc:
  "uniqueInOrder (ks @ [k]) = (if k \<in> set ks then uniqueInOrder ks else uniqueInOrder ks @ [k])"
  by (simp add: uniqueInOrder_def)

lemma set_uniqueInOrder [simp]: "set (uniqueInOrder ks) = set ks"
  by (simp add: uniqueInOrder_def)

lemma distinct_uniqueInOrder [simp]: "distinct (uniqueInOrder ks)"
  by (simp add: uniqueInOrder_def)

lemma map_of_keyed:
  "map_of (map (\<lambda>k. (k, f k)) xs) k = (if k \<in> set xs then Some (f k) else None)"
  by (induction xs) auto

lemma update_keyed_absent:
  "k \<notin> set xs \<Longrightarrow>
     AList.update k v (map (\<lambda>k'. (k', f k')) xs) = map (\<lambda>k'. (k', f k')) xs @ [(k, v)]"
  by (induction xs) auto

lemma update_keyed_present:
  "k \<in> set xs \<Longrightarrow> distinct xs \<Longrightarrow>
     AList.update k v (map (\<lambda>k'. (k', f k')) xs) =
       map (\<lambda>k'. (k', if k' = k then v else f k')) xs"
  by (induction xs) auto

lemma countUp_table:
  assumes "\<not> inheritedKey k"
  shows "countUp (map (\<lambda>k'. (k', Num (count_list ks k'))) (uniqueInOrder ks)) k =
     map (\<lambda>k'. (k', Num (count_list (ks @ [k]) k'))) (uniqueInOrder (ks @ [k]))"
proof (cases "k \<in> set ks")
  case True
  have proto: "k \<noteq> ''__proto__''" using assms by (auto simp: inheritedKey_def)
  have "getProp (map (\<lambda>k'. (k', Num (count_list ks k'))) (uniqueInOrder ks)) k =
      Num (count_list ks k)"
    using True by (simp add: getProp_def map_of_keyed)
  then have "countUp (map (\<lambda>k'. (k', Num (count_list ks k'))) (uniqueInOrder ks)) k =
      AList.update k (Num (count_list ks k + 1))
        (map (\<lambda>k'. (k', Num (count_list ks k'))) (uniqueInOrder ks))"
    using proto by (simp add: countUp_def setProp_def)
  also have "\<dots> = map (\<lambda>k'. (k', if k' = k then Num (count_list ks k + 1)
      else Num (count_list ks k'))) (uniqueInOrder ks)"
    using True by (simp add: update_keyed_present)
  also have "\<dots> = map (\<lambda>k'. (k', Num (count_list (ks @ [k]) k'))) (uniqueInOrder (ks @ [k]))"
    using True by (auto simp: uniqueInOrder_snoc)
  finally show ?thesis .
next
  case False
  have proto: "k \<noteq> ''__proto__''" using assms by (auto simp: inheritedKey_def)
  have "getProp (map (\<lambda>k'. (k', Num (count_list ks k'))) (uniqueInOrder ks)) k = Undefined"
    using False assms by (simp add: getProp_def map_of_keyed)
  then have "countUp (map (\<lambda>k'. (k', Num (count_list ks k'))) (uniqueInOrder ks)) k =
      AList.update k (Num 1) (map (\<lambda>k'. (k', Num (count_list ks k'))) (uniqueInOrder ks))"
    using proto by (simp add: countUp_def setProp_def)
  also have "\<dots> = map (\<lambda>k'. (k', Num (count_list ks k'))) (uniqueInOrder ks) @ [(k, Num 1)]"
    using False by (simp add: update_keyed_absent)
  also have "\<dots> = map (\<lambda>k'. (k', Num (count_list (ks @ [k]) k'))) (uniqueInOrder (ks @ [k]))"
    using False by (auto simp: uniqueInOrder_snoc count_list_0_iff)
  finally show ?thesis .
qed

lemma foldl_countUp_table:
  "list_all (\<lambda>k. \<not> inheritedKey k) ks \<Longrightarrow>
     foldl countUp [] ks = map (\<lambda>k. (k, Num (count_list ks k))) (uniqueInOrder ks)"
proof (induction ks rule: rev_induct)
  case Nil
  then show ?case by (simp add: uniqueInOrder_def)
next
  case (snoc k ks)
  then have "foldl countUp [] ks = map (\<lambda>k. (k, Num (count_list ks k))) (uniqueInOrder ks)"
    and "\<not> inheritedKey k" by simp_all
  then show ?case
    using countUp_table [of k ks] by simp
qed

lemma fillerCounts_keys: "fillerCounts fillers = foldl countUp [] (fillerKeys fillers)"
  by (simp add: fillerCounts_def fillerKeys_def foldl_map)

lemma repeatedCounts_step:
  "foldl (\<lambda>counts w.
            if \<not> isDisfluency w
            then (let wtext = toLowerCase (w_text w)
                  in if length wtext > 1 then countUp counts wtext else counts)
            else counts) obj words =
   foldl countUp obj (repeatedKeys words)"
  by (induction words arbitrary: obj) (simp_all add: repeatedKeys_def Let_def)

lemma repeatedCounts_keys: "repeatedCounts words = foldl countUp [] (repeatedKeys words)"
  by (simp add: repeatedCounts_def repeatedCounts_step)

text \<open>
  On numeric counts the comparator \<^verbatim>\<open>(a, b) => b.count - a.count\<close> is consistent, and
  the sort is the stable sort by descending count.
\<close>

lemma insertBy_insort_key:
  "(\<And>y. y \<in> set ys \<Longrightarrow> (cmp x y \<le> 0) = (f x \<le> f y)) \<Longrightarrow>
     insertBy cmp x ys = insort_key f x ys"
  by (induction ys) simp_all

lemma sortBy_sort_key:
  "(\<And>x y. x \<in> set xs \<Longrightarrow> y \<in> set xs \<Longrightarrow> (cmp x y \<le> 0) = (f x \<le> f y)) \<Longrightarrow>
     sortBy cmp xs = sort_key f xs"
proof (induction xs)
  case Nil
  then show ?case by (simp add: sortBy_def)
next
  case (Cons x xs)
  then have "sortBy cmp xs = sort_key f xs" by simp
  moreover have "insertBy cmp x (sort_key f xs) = insort_key f x (sort_key f xs)"
    by (rule insertBy_insort_key) (simp add: Cons.prems)
  ultimately show ?case by (simp add: sortBy_def)
qed

lemma insort_key_map:
  "insort_key f (g x) (map g ys) = map g (insort_key (\<lambda>y. f (g y)) x ys)"
  by (induction ys) simp_all

lemma sort_key_map: "sort_key f (map g xs) = map g (sort_key (\<lambda>x. f (g x)) xs)"
  by (induction xs) (simp_all add: insort_key_map)

lemma sortBy_numbered:
  "sortBy byCountDesc (map numberedCount ps) = map numberedCount (byDescendingCount ps)"
proof -
  let ?f = "\<lambda>wc. case wc_count wc of Num n \<Rightarrow> - int n | _ \<Rightarrow> 0"
  have "sortBy byCountDesc (map numberedCount ps) = sort_key ?f (map numberedCount ps)"
    by (rule sortBy_sort_key) (auto simp: byCountDesc_def numberedCount_def)
  also have "\<dots> = map numberedCount (sort_key (\<lambda>p. ?f (numberedCount p)) ps)"
    by (rule sort_key_map)
  also have "(\<lambda>p. ?f (numberedCount p)) = (\<lambda>(k, n). - int n)"
    by (auto simp: numberedCount_def)
  finally show ?thesis by (simp add: byDescendingCount_def)
qed

text \<open>\<^verbatim>\<open>Object.entries\<close> looks at the keys only, and without array-index keys keeps the order.\<close>

lemma Object_entries_map_value:
  "Object_entries (map (\<lambda>(k, v). (k, g v)) ps) = map (\<lambda>(k, v). (k, g v)) (Object_entries ps)"
proof -
  have a: "filter (\<lambda>(k, v). isArrayIndex k) (map (\<lambda>(k, v). (k, g v)) ps) =
      map (\<lambda>(k, v). (k, g v)) (filter (\<lambda>(k, v). isArrayIndex k) ps)"
    by (induction ps) auto
  have b: "filter (\<lambda>(k, v). \<not> isArrayIndex k) (map (\<lambda>(k, v). (k, g v)) ps) =
      map (\<lambda>(k, v). (k, g v)) (filter (\<lambda>(k, v). \<not> isArrayIndex k) ps)"
    by (induction ps) auto
  have c: "(\<lambda>x. (case (case x of (k, v) \<Rightarrow> (k, g v)) of (k, v) \<Rightarrow> digitsValue k)) =
      (\<lambda>(k, v). digitsValue k)"
    by auto
  show ?thesis
    by (simp add: Object_entries_def a b sort_key_map c)
qed

lemma Object_entries_no_index:
  assumes "list_all (\<lambda>(k, v). \<not> isArrayIndex k) ps"
  shows "Object_entries ps = ps"
proof -
  have "filter (\<lambda>(k, v). isArrayIndex k) ps = []"
    using assms by (induction ps) auto
  moreover have "filter (\<lambda>(k, v). \<not> isArrayIndex k) ps = ps"
    using assms by (induction ps) auto
  ultimately show ?thesis by (simp add: Object_entries_def)
qed

lemma set_Object_entries [simp]: "set (Object_entries ps) = set ps"
  by (auto simp: Object_entries_def)

lemma counted_table:
  "map (\<lambda>k. (k, Num (count_list ks k))) (uniqueInOrder ks) =
     map (\<lambda>(k, n). (k, Num n)) (frequencyTable ks)"
  by (simp add: frequencyTable_def)

lemma toWordCount_numbered:
  "map (toWordCount \<circ> (\<lambda>(k, n). (k, Num n))) ps = map numberedCount ps"
  by (induction ps) (auto simp: toWordCount_def numberedCount_def)

lemma entries_of_counts:
  assumes "list_all (\<lambda>k. \<not> inheritedKey k) ks"
  shows "Object_entries (foldl countUp [] ks) =
     map (\<lambda>(k, n). (k, Num n)) (Object_entries (frequencyTable ks))"
  by (simp add: foldl_countUp_table [OF assms] counted_table Object_entries_map_value)

lemma mostUsedFillers_table:
  assumes "list_all (\<lambda>k. \<not> inheritedKey k) (fillerKeys fillers)"
  shows "mostUsedFillers fillers =
     map numberedCount
       (take 10 (byDescendingCount (Object_entries (frequencyTable (fillerKeys fillers)))))"
  by (simp add: mostUsedFillers_def fillerCounts_keys entries_of_counts [OF assms]
      toWordCount_numbered sortBy_numbered take_map)

lemma filter_aboveOne:
  "filter (\<lambda>(_, count). aboveOne count) (map (\<lambda>(k, n). (k, Num n)) ps) =
     map (\<lambda>(k, n). (k, Num n)) (filter (\<lambda>(k, n). n > 1) ps)"
  by (induction ps) auto

lemma getRepeatedWords_table:
  assumes "list_all (\<lambda>k. \<not> inheritedKey k) (repeatedKeys words)"
  shows "getRepeatedWords words =
     map numberedCount
       (byDescendingCount
          (filter (\<lambda>(k, n). n > 1) (Object_entries (frequencyTable (repeatedKeys words)))))"
  by (simp add: getRepeatedWords_def repeatedCounts_keys entries_of_counts [OF assms]
      filter_aboveOne toWordCount_numbered sortBy_numbered)

lemma frequencyTable_no_index:
  assumes "list_all (\<lambda>k. \<not> isArrayIndex k) ks"
  shows "Object_entries (frequencyTable ks) = frequencyTable ks"
proof (rule Object_entries_no_index)
  show "list_all (\<lambda>(k, v). \<not> isArrayIndex k) (frequencyTable ks)"
    using assms by (auto simp: frequencyTable_def list_all_iff)
qed

text \<open>
  Claim C6, as the code has it. The top-filler table of the analysis is computed from
  the disfluency-tagged words. For filler texts other than \<^verbatim>\<open>constructor\<close> and
  \<^verbatim>\<open>__proto__\<close>, it is the first 10 entries, by descending count, of the frequency
  table over the lower-cased, trimmed filler texts; entries of equal count stay in the
  order in which \<^verbatim>\<open>Object.entries\<close> enumerates the table: the texts that are array
  indices first, in ascending numeric order, then the other texts in first-seen order.
  When no filler text is an array index, ties are broken by first-seen order.
\<close>

theorem mostUsedFillers_top_ten:
  "a_mostUsedFillers (analyzeTranscript t) = mostUsedFillers (filter isDisfluency (wordsOf t)) \<and>
   (list_all (\<lambda>k. \<not> inheritedKey k) (fillerKeys fillers) \<longrightarrow>
      mostUsedFillers fillers =
        map numberedCount
          (take 10 (byDescendingCount (Object_entries (frequencyTable (fillerKeys fillers)))))) \<and>
   (list_all (\<lambda>k. \<not> inheritedKey k) (fillerKeys fillers) \<and>
    list_all (\<lambda>k. \<not> isArrayIndex k) (fillerKeys fillers) \<longrightarrow>
      mostUsedFillers fillers =
        map numberedCount (take 10 (byDescendingCount (frequencyTable (fillerKeys fillers)))))"
  using mostUsedFillers_table [of fillers] frequencyTable_no_index [of "fillerKeys fillers"]
  by (simp add: analyzeTranscript_fields fillersOf_def)

text \<open>
  The fillers Uh, um, like, Um: \<open>um\<close> counts 2 and comes first; \<open>uh\<close> and \<open>like\<close> count 1
  each and stay in first-seen order.
\<close>

theorem mostUsedFillers_witness:
  "mostUsedFillers [fillerWord ''Uh'' 0 1 None, fillerWord '' um'' 1 2 None,
                    fillerWord ''like'' 2 3 None, fillerWord ''Um '' 3 4 None] =
     [\<lparr>wc_word = ''um'', wc_count = Num 2\<rparr>, \<lparr>wc_word = ''uh'', wc_count = Num 1\<rparr>,
      \<lparr>wc_word = ''like'', wc_count = Num 1\<rparr>]"
proof -
  let ?fs = "[fillerWord ''Uh'' 0 1 None, fillerWord '' um'' 1 2 None,
              fillerWord ''like'' 2 3 None, fillerWord ''Um '' 3 4 None]"
  have keys: "fillerKeys ?fs = [''uh'', ''um'', ''like'', ''um'']"
    by code_simp
  have own: "list_all (\<lambda>k. \<not> inheritedKey k) (fillerKeys ?fs)"
    unfolding keys by code_simp
  have idx: "list_all (\<lambda>k. \<not> isArrayIndex k) (fillerKeys ?fs)"
    unfolding keys by code_simp
  have "mostUsedFillers ?fs =
      map numberedCount (take 10 (byDescendingCount (frequencyTable (fillerKeys ?fs))))"
    using mostUsedFillers_top_ten [of "transcriptOf None None" ?fs] own idx by blast
  also have "\<dots> = [\<lparr>wc_word = ''um'', wc_count = Num 2\<rparr>, \<lparr>wc_word = ''uh'', wc_count = Num 1\<rparr>,
      \<lparr>wc_word = ''like'', wc_count = Num 1\<rparr>]"
    unfolding keys by code_simp
  finally show ?thesis .
qed

text \<open>
  Claim C6 as stated breaks every tie by first-seen order. For the fillers \<open>um\<close> then
  \<open>7\<close>, each seen once, \<^verbatim>\<open>Object.entries\<close> enumerates the array-index key \<open>7\<close> first
  and the stable sort keeps it first: the table is \<open>7\<close>, \<open>um\<close>, where first-seen order
  would give \<open>um\<close>, \<open>7\<close>.
\<close>

theorem mostUsedFillers_index_key_counterexample:
  "mostUsedFillers [fillerWord ''um'' 0 1 None, fillerWord ''7'' 1 2 None] =
     [\<lparr>wc_word = ''7'', wc_count = Num 1\<rparr>, \<lparr>wc_word = ''um'', wc_count = Num 1\<rparr>] \<and>
   map numberedCount (take 10 (byDescendingCount (frequencyTable
       (fillerKeys [fillerWord ''um'' 0 1 None, fillerWord ''7'' 1 2 None])))) =
     [\<lparr>wc_word = ''um'', wc_count = Num 1\<rparr>, \<lparr>wc_word = ''7'', wc_count = Num 1\<rparr>]"
  by code_simp

section \<open>Repeated words\<close>

text \<open>
  For spoken words whose lower-cased text is neither \<^verbatim>\<open>constructor\<close> nor
  \<^verbatim>\<open>__proto__\<close>, \<^verbatim>\<open>getRepeatedWords\<close> returns the entries of count above 1 of the
  frequency table over the lower-cased texts, longer than one character, of the
  non-disfluency words, by descending count: exactly the repeated words, each once, with
  its count.
\<close>

lemma set_frequencyTable:
  "set (frequencyTable ks) = (\<lambda>k. (k, count_list ks k)) ` set ks"
  by (simp add: frequencyTable_def)

lemma getRepeatedWords_exact:
  assumes "list_all (\<lambda>k. \<not> inheritedKey k) (repeatedKeys words)"
  shows "set (getRepeatedWords words) =
     {\<lparr>wc_word = k, wc_count = Num (count_list (repeatedKeys words) k)\<rparr> | k.
        k \<in> set (repeatedKeys words) \<and> count_list (repeatedKeys words) k > 1}"
    and "distinct (map wc_word (getRepeatedWords words))"
    and "sorted (map (\<lambda>(k, n). - int n)
       (byDescendingCount (filter (\<lambda>(k, n). n > 1)
          (Object_entries (frequencyTable (repeatedKeys words))))))"
proof -
  show "set (getRepeatedWords words) =
     {\<lparr>wc_word = k, wc_count = Num (count_list (repeatedKeys words) k)\<rparr> | k.
        k \<in> set (repeatedKeys words) \<and> count_list (repeatedKeys words) k > 1}"
    unfolding getRepeatedWords_table [OF assms]
    by (auto simp: byDescendingCount_def set_frequencyTable numberedCount_def)
  show "sorted (map (\<lambda>(k, n). - int n)
       (byDescendingCount (filter (\<lambda>(k, n). n > 1)
          (Object_entries (frequencyTable (repeatedKeys words))))))"
    by (simp add: byDescendingCount_def)
  have names: "map wc_word (map numberedCount ps) = map fst ps" for ps
    by (induction ps) (auto simp: numberedCount_def)
  have sorted_keys: "distinct (map fst (sort_key f ps)) = distinct (map fst ps)"
    for f :: "string \<times> nat \<Rightarrow> int" and ps
    by (simp add: distinct_map)
  have entries: "distinct (map fst (Object_entries ps))" if "distinct (map fst ps)"
    for ps :: "(string \<times> nat) list"
  proof -
    have "distinct (map fst (filter (\<lambda>(k, v). isArrayIndex k) ps))"
      and "distinct (map fst (filter (\<lambda>(k, v). \<not> isArrayIndex k) ps))"
      using that by (simp_all add: distinct_map_filter)
    moreover have "fst ` set (filter (\<lambda>(k, v). isArrayIndex k) ps) \<inter>
        fst ` set (filter (\<lambda>(k, v). \<not> isArrayIndex k) ps) = {}"
      by auto
    ultimately show ?thesis
      unfolding Object_entries_def map_append distinct_append
      by (simp add: distinct_map)
  qed
  have table: "distinct (map fst (frequencyTable ks))" for ks
    by (simp add: frequencyTable_def comp_def)
  have "distinct (map fst (byDescendingCount (filter (\<lambda>(k, n). n > 1)
      (Object_entries (frequencyTable (repeatedKeys words))))))"
    unfolding byDescendingCount_def sorted_keys
    by (rule distinct_map_filter) (rule entries [OF table])
  then show "distinct (map wc_word (getRepeatedWords words))"
    unfolding getRepeatedWords_table [OF assms] names .
qed

text \<open>
  Claim C7 at the word \<open>constructor\<close>, spoken twice. Reading \<^verbatim>\<open>counts["constructor"]\<close>
  on the empty object finds the function \<^verbatim>\<open>Object.prototype.constructor\<close>, which is
  truthy, so \<^verbatim>\<open>(counts[wtext] || 0) + 1\<close> is a string and the stored count is never a
  number; \<^verbatim>\<open>count > 1\<close> is then false and the word is dropped: the result is empty,
  where the repeated words of the input are \<open>constructor\<close> with count 2. The example of
  the claim, I, I, the, the, cat, gives \<open>the\<close> with count 2 only.
\<close>

theorem getRepeatedWords_constructor:
  "getRepeatedWords [spokenWord ''constructor'' 0 1 None, spokenWord ''Constructor'' 1 2 None] = [] \<and>
   map numberedCount (byDescendingCount (filter (\<lambda>(k, n). n > 1) (frequencyTable
       (repeatedKeys [spokenWord ''constructor'' 0 1 None, spokenWord ''Constructor'' 1 2 None])))) =
     [\<lparr>wc_word = ''constructor'', wc_count = Num 2\<rparr>] \<and>
   getRepeatedWords [spokenWord ''I'' 0 1 None, spokenWord ''I'' 1 2 None, spokenWord ''the'' 2 3 None,
                     spokenWord ''the'' 3 4 None, spokenWord ''cat'' 4 5 None] =
     [\<lparr>wc_word = ''the'', wc_count = Num 2\<rparr>]"
  by code_simp

end
